theory Spec2Isabelle
  imports Main "HOL-Library.AList" "HOL-Library.Monad_Syntax"
begin

section \<open>JavaScript values\<close>

text \<open>
  The processor of \<^verbatim>\<open>src/index.jsx\<close> walks plain data: the type map, the type
  definitions, the field descriptors and the values it processes are all ordinary
  JavaScript values, told apart at run time by \<^verbatim>\<open>instanceof\<close> and by truthiness.
  They are modelled by one datatype of finite value trees. An object is a plain
  object, whose prototype is \<^verbatim>\<open>Object.prototype\<close>, given by the list of its own
  enumerable properties in the order of \<^verbatim>\<open>Object.keys\<close>; where a list names a key twice
  the first binding is the property and the later ones are dead. An array has no
  holes and no properties beside its elements. Numbers are the integer-valued ones,
  strings are ASCII. Functions and cyclic object graphs are not values of the model.
\<close>

datatype jsval =
    Undefined
  | Null
  | Bool bool
  | Num int
  | Str string
  | Arr "jsval list"
  | Obj "(string \<times> jsval) list"

text \<open>\<^verbatim>\<open>value instanceof Object\<close> and \<^verbatim>\<open>value instanceof Array\<close>.\<close>

fun instanceof_Object :: "jsval \<Rightarrow> bool" where
  "instanceof_Object (Obj ps) = True"
| "instanceof_Object (Arr xs) = True"
| "instanceof_Object v = False"

fun instanceof_Array :: "jsval \<Rightarrow> bool" where
  "instanceof_Array (Arr xs) = True"
| "instanceof_Array v = False"

text \<open>The truthiness that \<^verbatim>\<open>if (primitive)\<close>, \<^verbatim>\<open>if (remote)\<close> and \<^verbatim>\<open>if (multiple)\<close> test.\<close>

fun truthy :: "jsval \<Rightarrow> bool" where
  "truthy Undefined = False"
| "truthy Null = False"
| "truthy (Bool b) = b"
| "truthy (Num n) = (n \<noteq> 0)"
| "truthy (Str s) = (s \<noteq> [])"
| "truthy (Arr xs) = True"
| "truthy (Obj ps) = True"

section \<open>Property keys\<close>

text \<open>Decimal numerals, for array index keys and for numbers used as property keys.\<close>

fun string_of_nat :: "nat \<Rightarrow> string" where
  "string_of_nat n =
     (if n < 10 then [''0123456789'' ! n]
      else string_of_nat (n div 10) @ [''0123456789'' ! (n mod 10)])"

declare string_of_nat.simps [simp del]

definition string_of_int :: "int \<Rightarrow> string" where
  "string_of_int n =
     (if n < 0 then CHR ''-'' # string_of_nat (nat (- n)) else string_of_nat (nat n))"

fun join :: "string \<Rightarrow> string list \<Rightarrow> string" where
  "join sep [] = []"
| "join sep [s] = s"
| "join sep (s # t # ss) = s @ sep @ join sep (t # ss)"

text \<open>
  A property key is a string: \<^verbatim>\<open>obj[key]\<close> converts any other key with ToString, so
  that a field descriptor without a \<^verbatim>\<open>type\<close> names the type \<^verbatim>\<open>'undefined'\<close>. The
  conversion is written out where it is the plain one and is \<open>None\<close>, not described,
  elsewhere: a number prints as a decimal numeral up to \<^verbatim>\<open>Number.MAX_SAFE_INTEGER\<close>
  (larger integers need not be numbers at all, and from \<^verbatim>\<open>1e21\<close> they print with an
  exponent); an array prints its elements joined by commas; an object prints as
  \<^verbatim>\<open>[object Object]\<close> unless it has a \<^verbatim>\<open>toString\<close> of its own, which the conversion
  would consult.
\<close>

fun to_key :: "jsval \<Rightarrow> string option" where
  "to_key Undefined = Some ''undefined''"
| "to_key Null = Some ''null''"
| "to_key (Bool b) = Some (if b then ''true'' else ''false'')"
| "to_key (Num n) = (if \<bar>n\<bar> \<le> 9007199254740991 then Some (string_of_int n) else None)"
| "to_key (Str s) = Some s"
| "to_key (Arr xs) =
     map_option (join '','')
       (those (map (\<lambda>x. if x = Undefined \<or> x = Null then Some [] else to_key x) xs))"
| "to_key (Obj ps) =
     (if ''toString'' \<in> fst ` set ps then None else Some ''[object Object]'')"

section \<open>Reading properties\<close>

text \<open>
  The own properties of a value: the properties of an object, the elements and the
  length of an array, the characters and the length of a string.
\<close>

definition index_of_key :: "nat \<Rightarrow> string \<Rightarrow> nat option" where
  "index_of_key n k = List.find (\<lambda>i. string_of_nat i = k) [0..<n]"

fun own_prop :: "jsval \<Rightarrow> string \<Rightarrow> jsval option" where
  "own_prop (Obj ps) k = map_of ps k"
| "own_prop (Arr xs) k =
     (if k = ''length'' then Some (Num (int (length xs)))
      else map_option (\<lambda>i. xs ! i) (index_of_key (length xs) k))"
| "own_prop (Str s) k =
     (if k = ''length'' then Some (Num (int (length s)))
      else map_option (\<lambda>i. Str [s ! i]) (index_of_key (length s) k))"
| "own_prop v k = None"

text \<open>
  What a value has no property of its own for, it inherits from its prototype chain.
  The names that \<^verbatim>\<open>Object.prototype\<close> and \<^verbatim>\<open>Array.prototype\<close> define are those of
  ECMAScript 2023 with its annex B; what they hold are functions and prototype
  objects of the runtime, which are not values of the model. The prototypes of the
  wrappers of strings, numbers and booleans are not listed: every name may be
  inherited there.
\<close>

definition objectPrototypeNames :: "string list" where
  "objectPrototypeNames =
     [''constructor'', ''hasOwnProperty'', ''isPrototypeOf'', ''propertyIsEnumerable'',
      ''toLocaleString'', ''toString'', ''valueOf'', ''__proto__'',
      ''__defineGetter__'', ''__defineSetter__'', ''__lookupGetter__'', ''__lookupSetter__'']"

definition arrayPrototypeNames :: "string list" where
  "arrayPrototypeNames =
     [''at'', ''concat'', ''copyWithin'', ''entries'', ''every'', ''fill'', ''filter'',
      ''find'', ''findIndex'', ''findLast'', ''findLastIndex'', ''flat'', ''flatMap'',
      ''forEach'', ''includes'', ''indexOf'', ''join'', ''keys'', ''lastIndexOf'', ''map'',
      ''pop'', ''push'', ''reduce'', ''reduceRight'', ''reverse'', ''shift'', ''slice'',
      ''some'', ''sort'', ''splice'', ''toReversed'', ''toSorted'', ''toSpliced'',
      ''unshift'', ''values'', ''with'']"

fun inherited :: "jsval \<Rightarrow> string \<Rightarrow> bool" where
  "inherited (Obj ps) k = (k \<in> set objectPrototypeNames)"
| "inherited (Arr xs) k = (k \<in> set arrayPrototypeNames \<or> k \<in> set objectPrototypeNames)"
| "inherited v k = True"

text \<open>
  \<^verbatim>\<open>obj[key]\<close> on a value that exists: the own property if there is one; otherwise
  \<open>None\<close>, a runtime object that the model does not describe, if the name is
  inherited, and \<^verbatim>\<open>undefined\<close> if it is not. The code reads no property of
  \<^verbatim>\<open>undefined\<close> or \<^verbatim>\<open>null\<close> but in \<^verbatim>\<open>features[featureName]\<close>, where the TypeError
  of the engine is written out.
\<close>

definition get_prop :: "jsval \<Rightarrow> string \<Rightarrow> jsval option" where
  "get_prop v k =
     (case own_prop v k of
        Some w \<Rightarrow> Some w
      | None \<Rightarrow> if inherited v k then None else Some Undefined)"

text \<open>
  What \<^verbatim>\<open>obj[key]\<close> is when nothing is inherited under the name: the own property,
  and \<^verbatim>\<open>undefined\<close> when there is none. The names the code itself reads,
  \<^verbatim>\<open>primitive\<close>, \<^verbatim>\<open>remote\<close>, \<^verbatim>\<open>fields\<close>, \<^verbatim>\<open>type\<close>, \<^verbatim>\<open>multiple\<close> and \<^verbatim>\<open>features\<close>,
  are of this kind on every object and array.
\<close>

definition own_value :: "jsval \<Rightarrow> string \<Rightarrow> jsval" where
  "own_value v k = (case own_prop v k of Some w \<Rightarrow> w | None \<Rightarrow> Undefined)"

text \<open>
  \<^verbatim>\<open>Object.keys(obj)\<close>, which the code calls on an object or an array only: the own
  enumerable keys, each once.
\<close>

fun Object_keys :: "jsval \<Rightarrow> string list" where
  "Object_keys (Obj ps) = map fst (AList.clearjunk ps)"
| "Object_keys (Arr xs) = map string_of_nat [0..<length xs]"
| "Object_keys (Str s) = map string_of_nat [0..<length s]"
| "Object_keys v = []"

text \<open>
  \<^verbatim>\<open>obj[key] = v\<close> on an object the code has made with \<^verbatim>\<open>{}\<close>. Every name creates or
  overwrites an own property but \<^verbatim>\<open>__proto__\<close>, which \<^verbatim>\<open>Object.prototype\<close> defines
  with a setter: the setter changes the prototype of \<^verbatim>\<open>obj\<close> when \<^verbatim>\<open>v\<close> is an object
  or \<^verbatim>\<open>null\<close>, which leaves the model, and does nothing for any other \<^verbatim>\<open>v\<close>. Either
  way the object gets no key.
\<close>

definition set_prop :: "(string \<times> jsval) list \<Rightarrow> string \<Rightarrow> jsval \<Rightarrow> (string \<times> jsval) list option" where
  "set_prop obj k v =
     (if k = ''__proto__'' then (if instanceof_Object v \<or> v = Null then None else Some obj)
      else Some (AList.update k v obj))"

section \<open>Errors\<close>

text \<open>
  Every error the processor throws is a \<^verbatim>\<open>TypeError\<close> whose message is one of
  \<^verbatim>\<open>ERROR_MESSAGES\<close>; the two aggregates carry a map, \<^verbatim>\<open>fields\<close> or \<^verbatim>\<open>indices\<close>, from
  the failing position to the error caught there, given by its own entries. A hook
  may throw any value, and reading a property of \<^verbatim>\<open>null\<close> throws the engine's own
  TypeError.
\<close>

datatype error =
    NonExistentType
  | NonExistentField
  | MissingFieldsForType
  | InvalidItem
  | InvalidValueList
  | ItemError "(string \<times> error) list"
  | ValueListError "(nat \<times> error) list"
  | Thrown jsval
  | NativeTypeError

text \<open>
  \<^verbatim>\<open>errorFields[fieldName] = error\<close>. Under \<^verbatim>\<open>__proto__\<close> the setter above runs: a
  thrown value that is neither an object nor \<^verbatim>\<open>null\<close> is dropped, and a thrown object
  (every \<^verbatim>\<open>TypeError\<close> is one) becomes the prototype of the map, which leaves the
  model.
\<close>

fun is_primitive_throw :: "error \<Rightarrow> bool" where
  "is_primitive_throw (Thrown v) = (\<not> (instanceof_Object v \<or> v = Null))"
| "is_primitive_throw e = False"

definition set_error :: "(string \<times> error) list \<Rightarrow> string \<Rightarrow> error \<Rightarrow> (string \<times> error) list option" where
  "set_error errors k e =
     (if k = ''__proto__'' then (if is_primitive_throw e then Some errors else None)
      else Some (AList.update k e errors))"

section \<open>The processor\<close>

text \<open>
  An instance holds the type map and the two methods a subclass overrides. The
  methods are asynchronous and may do anything; each is a function of the state
  \<open>'s\<close> of the world it acts on, returning the value or the error thrown and the new
  state. The processor awaits every call before the next, so the state is threaded
  in program order.

  Every method of the processor returns an option. \<open>Some\<close> is what the call returns
  or throws; \<open>None\<close> says that the run has read an inherited property, converted a
  key or set a prototype in a way the model does not describe, and then the model
  says nothing of the run.
\<close>

type_synonym 's hook = "jsval \<Rightarrow> jsval \<Rightarrow> 's \<Rightarrow> (error + jsval) \<times> 's"

record 's processor =
  typeMap :: jsval
  processPrimitiveValue :: "'s hook"
  processRemoteValue :: "'s hook"

definition valueExists :: "jsval \<Rightarrow> bool" where
  "valueExists v = (\<not> (v = Undefined \<or> v = Null))"

definition getTypeDefinition :: "'s processor \<Rightarrow> jsval \<Rightarrow> (error + jsval) option" where
  "getTypeDefinition this typeName =
     (if instanceof_Object (typeMap this) then
        do {
          key \<leftarrow> to_key typeName;
          typeDefinition \<leftarrow> get_prop (typeMap this) key;
          if instanceof_Object typeDefinition then Some (Inr typeDefinition)
          else Some (Inl NonExistentType)
        }
      else Some (Inl NonExistentType))"

definition getFieldList :: "'s processor \<Rightarrow> jsval \<Rightarrow> (error + string list) option" where
  "getFieldList this typeName =
     do {
       r \<leftarrow> getTypeDefinition this typeName;
       case r of
         Inl e \<Rightarrow> Some (Inl e)
       | Inr typeDefinition \<Rightarrow>
           do {
             fields \<leftarrow> get_prop typeDefinition ''fields'';
             if instanceof_Object fields then Some (Inr (Object_keys fields))
             else Some (Inl MissingFieldsForType)
           }
     }"

definition getFieldDescriptor :: "'s processor \<Rightarrow> jsval \<Rightarrow> string \<Rightarrow> (error + jsval) option" where
  "getFieldDescriptor this typeName fieldName =
     do {
       r \<leftarrow> getTypeDefinition this typeName;
       case r of
         Inl e \<Rightarrow> Some (Inl e)
       | Inr typeDefinition \<Rightarrow>
           do {
             fields \<leftarrow> get_prop typeDefinition ''fields'';
             if instanceof_Object fields then
               do {
                 f \<leftarrow> get_prop fields fieldName;
                 if instanceof_Object f then Some (Inr f) else Some (Inl NonExistentField)
               }
             else Some (Inl NonExistentField)
           }
     }"

text \<open>
  \<^verbatim>\<open>const { features = {} } = x; return features[featureName]\<close>: the default
  replaces \<^verbatim>\<open>undefined\<close> only, so a \<^verbatim>\<open>null\<close> feature bag makes the read throw.
\<close>

definition readFeature :: "jsval \<Rightarrow> string \<Rightarrow> (error + jsval) option" where
  "readFeature holder featureName =
     do {
       given \<leftarrow> get_prop holder ''features'';
       let features = (if given = Undefined then Obj [] else given);
       if features = Null then Some (Inl NativeTypeError)
       else map_option Inr (get_prop features featureName)
     }"

definition getTypeFeature :: "'s processor \<Rightarrow> jsval \<Rightarrow> string \<Rightarrow> (error + jsval) option" where
  "getTypeFeature this typeName featureName =
     do {
       r \<leftarrow> getTypeDefinition this typeName;
       case r of
         Inl e \<Rightarrow> Some (Inl e)
       | Inr typeDefinition \<Rightarrow> readFeature typeDefinition featureName
     }"

definition getFieldFeature ::
  "'s processor \<Rightarrow> jsval \<Rightarrow> string \<Rightarrow> string \<Rightarrow> (error + jsval) option" where
  "getFieldFeature this typeName fieldName featureName =
     do {
       r \<leftarrow> getFieldDescriptor this typeName fieldName;
       case r of
         Inl e \<Rightarrow> Some (Inl e)
       | Inr fieldDescriptor \<Rightarrow> readFeature fieldDescriptor featureName
     }"

section \<open>Traversal\<close>

text \<open>The elements of an array, which the list loop visits by index.\<close>

fun elements :: "jsval \<Rightarrow> jsval list" where
  "elements (Arr xs) = xs"
| "elements v = []"

text \<open>
  Values are finite trees, and each descent of the traversal moves to a proper part
  of the value at hand: an element of an array, a property of an object. The three
  functions below order the calls of the mutually recursive methods: by the size of
  the value, then by the position of the method in the call chain, then by what is
  left of the loop.
\<close>

lemma size_map_of:
  "map_of ps k = Some v \<Longrightarrow> size v < Suc (size_list (size_prod (\<lambda>_. 0) size) ps)"
  by (induction ps) (auto split: if_splits)

lemma size_mem: "x \<in> set xs \<Longrightarrow> size x < Suc (size_list size xs)"
  by (induction xs) auto

lemma index_of_key_less: "index_of_key n k = Some i \<Longrightarrow> i < n"
  by (auto simp: index_of_key_def find_Some_iff)

lemma size_nth: "i < length xs \<Longrightarrow> size (xs ! i) < Suc (size_list size xs)"
  by (simp add: size_mem)

lemma size_own_prop: "own_prop v k = Some w \<Longrightarrow> instanceof_Object v \<Longrightarrow> size w < size v"
  by (cases v) (auto split: if_splits dest: size_map_of index_of_key_less intro: size_nth)

lemma size_own_prop_leaf: "own_prop v k = Some w \<Longrightarrow> \<not> instanceof_Object v \<Longrightarrow> size w = 0"
  by (cases v) (auto split: if_splits)

lemma size_get_prop: "get_prop v k = Some w \<Longrightarrow> instanceof_Object v \<Longrightarrow> size w < size v"
proof (cases "own_prop v k")
  case None
  assume "get_prop v k = Some w" "instanceof_Object v"
  with None have "w = Undefined"
    by (auto simp: get_prop_def split: if_splits)
  with \<open>instanceof_Object v\<close> show ?thesis
    by (cases v) auto
next
  case (Some u)
  assume "get_prop v k = Some w" "instanceof_Object v"
  with Some show ?thesis
    by (auto simp: get_prop_def dest: size_own_prop)
qed

lemma size_get_prop_leaf: "get_prop v k = Some w \<Longrightarrow> \<not> instanceof_Object v \<Longrightarrow> size w = 0"
  by (auto simp: get_prop_def split: option.splits if_splits dest: size_own_prop_leaf)

lemma size_elements: "instanceof_Array v \<Longrightarrow> size_list size (elements v) < size v"
  by (cases v) auto

definition size_arg where
  "size_arg = case_sum
     (case_sum (\<lambda>(this, v, T, s). size v)
        (case_sum (\<lambda>(this, T, xs, i, nl, es, s). size_list size xs)
                  (\<lambda>(this, v, T, s). size v)))
     (case_sum (\<lambda>(this, v, T, f, s). size v)
        (case_sum (\<lambda>(this, v, T, fs, ni, es, s). size v)
                  (\<lambda>(this, v, T, s). size v)))"

definition rank_arg where
  "rank_arg = case_sum
     (case_sum (\<lambda>(this, v, T, s). 3::nat)
        (case_sum (\<lambda>(this, T, xs, i, nl, es, s). 0)
                  (\<lambda>(this, v, T, s). 3)))
     (case_sum (\<lambda>(this, v, T, f, s). 4)
        (case_sum (\<lambda>(this, v, T, fs, ni, es, s). if instanceof_Object v then 1 else 5)
                  (\<lambda>(this, v, T, s). 2)))"

definition rest_arg where
  "rest_arg = case_sum
     (case_sum (\<lambda>(this, v, T, s). 0::nat)
        (case_sum (\<lambda>(this, T, xs, i, nl, es, s). length xs)
                  (\<lambda>(this, v, T, s). 0)))
     (case_sum (\<lambda>(this, v, T, f, s). 0)
        (case_sum (\<lambda>(this, v, T, fs, ni, es, s). length fs)
                  (\<lambda>(this, v, T, s). 0)))"

text \<open>
  The methods \<^verbatim>\<open>processValue\<close>, \<^verbatim>\<open>processValueList\<close>, \<^verbatim>\<open>processFieldValue\<close> and
  \<^verbatim>\<open>processItem\<close>. Each \<^verbatim>\<open>for\<close> loop is a function of its own over the elements or
  field names still to visit, carrying the index and the two locals the loop
  updates; \<^verbatim>\<open>try\<close>/\<^verbatim>\<open>catch\<close> is the case split on the result of the call.
\<close>

function
  processValue ::
    "'s processor \<Rightarrow> jsval \<Rightarrow> jsval \<Rightarrow> 's \<Rightarrow> ((error + jsval) \<times> 's) option" and
  processValueList_loop ::
    "'s processor \<Rightarrow> jsval \<Rightarrow> jsval list \<Rightarrow> nat \<Rightarrow> jsval list \<Rightarrow> (nat \<times> error) list \<Rightarrow> 's
      \<Rightarrow> ((jsval list \<times> (nat \<times> error) list) \<times> 's) option" and
  processValueList ::
    "'s processor \<Rightarrow> jsval \<Rightarrow> jsval \<Rightarrow> 's \<Rightarrow> ((error + jsval) \<times> 's) option" and
  processFieldValue ::
    "'s processor \<Rightarrow> jsval \<Rightarrow> jsval \<Rightarrow> string \<Rightarrow> 's \<Rightarrow> ((error + jsval) \<times> 's) option" and
  processItem_loop ::
    "'s processor \<Rightarrow> jsval \<Rightarrow> jsval \<Rightarrow> string list \<Rightarrow> (string \<times> jsval) list
      \<Rightarrow> (string \<times> error) list \<Rightarrow> 's
      \<Rightarrow> (((string \<times> jsval) list \<times> (string \<times> error) list) \<times> 's) option" and
  processItem ::
    "'s processor \<Rightarrow> jsval \<Rightarrow> jsval \<Rightarrow> 's \<Rightarrow> ((error + jsval) \<times> 's) option"
where
  "processValue this value typeName s =
     do {
       r \<leftarrow> getTypeDefinition this typeName;
       case r of
         Inl e \<Rightarrow> Some (Inl e, s)
       | Inr typeDefinition \<Rightarrow>
           do {
             primitive \<leftarrow> get_prop typeDefinition ''primitive'';
             remote \<leftarrow> get_prop typeDefinition ''remote'';
             if truthy primitive then Some (processPrimitiveValue this value typeName s)
             else if truthy remote then Some (processRemoteValue this value typeName s)
             else processItem this value typeName s
           }
     }"
| "processValueList_loop this typeName [] i newList errorIndices s =
     Some ((newList, errorIndices), s)"
| "processValueList_loop this typeName (value # rest) i newList errorIndices s =
     do {
       (r, s') \<leftarrow> processValue this value typeName s;
       case r of
         Inr v \<Rightarrow>
           processValueList_loop this typeName rest (Suc i) (newList @ [v]) errorIndices s'
       | Inl error \<Rightarrow>
           processValueList_loop this typeName rest (Suc i) newList
             (AList.update i error errorIndices) s'
     }"
| "processValueList this valueList typeName s =
     (if instanceof_Array valueList then
        do {
          ((newList, errorIndices), s') \<leftarrow>
            processValueList_loop this typeName (elements valueList) 0 [] [] s;
          if length (map fst errorIndices) \<noteq> 0 then
            Some (Inl (ValueListError errorIndices), s')
          else Some (Inr (Arr newList), s')
        }
      else if \<not> valueExists valueList then Some (Inr valueList, s)
      else Some (Inl InvalidValueList, s))"
| "processFieldValue this value typeName fieldName s =
     do {
       r \<leftarrow> getFieldDescriptor this typeName fieldName;
       case r of
         Inl e \<Rightarrow> Some (Inl e, s)
       | Inr fieldDescriptor \<Rightarrow>
           do {
             fieldTypeName \<leftarrow> get_prop fieldDescriptor ''type'';
             multiple \<leftarrow> get_prop fieldDescriptor ''multiple'';
             if truthy multiple then processValueList this value fieldTypeName s
             else processValue this value fieldTypeName s
           }
     }"
| "processItem_loop this item typeName [] newItem errorFields s =
     Some ((newItem, errorFields), s)"
| "processItem_loop this item typeName (fieldName # rest) newItem errorFields s =
     do {
       value \<leftarrow> get_prop item fieldName;
       (r, s') \<leftarrow> processFieldValue this value typeName fieldName s;
       case r of
         Inr v \<Rightarrow>
           do {
             newItem' \<leftarrow> set_prop newItem fieldName v;
             processItem_loop this item typeName rest newItem' errorFields s'
           }
       | Inl error \<Rightarrow>
           do {
             errorFields' \<leftarrow> set_error errorFields fieldName error;
             processItem_loop this item typeName rest newItem errorFields' s'
           }
     }"
| "processItem this item typeName s =
     (if instanceof_Object item then
        do {
          r \<leftarrow> getFieldList this typeName;
          case r of
            Inl e \<Rightarrow> Some (Inl e, s)
          | Inr fieldList \<Rightarrow>
              do {
                ((newItem, errorFields), s') \<leftarrow>
                  processItem_loop this item typeName fieldList [] [] s;
                if length (map fst errorFields) \<noteq> 0 then
                  Some (Inl (ItemError errorFields), s')
                else Some (Inr (Obj newItem), s')
              }
        }
      else if \<not> valueExists item then Some (Inr item, s)
      else Some (Inl InvalidItem, s))"
  by pat_completeness auto
termination
  by (relation "measures [size_arg, rank_arg, rest_arg]")
    (auto simp: size_arg_def rank_arg_def rest_arg_def
       size_get_prop size_get_prop_leaf size_elements)

declare processValue.simps [simp del] processValueList.simps [simp del]
  processFieldValue.simps [simp del] processItem.simps [simp del]

section \<open>The base class, recorded hook calls, and the running examples\<close>

text \<open>
  \<^verbatim>\<open>new AbstractTypeProcessor({ typeMap })\<close>: the two methods of the base class return
  the value they are given.
\<close>

definition AbstractTypeProcessor :: "jsval \<Rightarrow> 's processor" where
  "AbstractTypeProcessor tm =
     \<lparr> typeMap = tm,
       processPrimitiveValue = (\<lambda>value typeName s. (Inr value, s)),
       processRemoteValue = (\<lambda>value typeName s. (Inr value, s)) \<rparr>"

text \<open>
  A subclass that notes every call of a hook before doing what the given instance
  does, as the subclass of the repository's test does with its two globals. The log
  is the sequence of hook invocations of a run.
\<close>

datatype hook_call = PrimitiveCall jsval jsval | RemoteCall jsval jsval

definition recording :: "'s processor \<Rightarrow> ('s \<times> hook_call list) processor" where
  "recording this =
     \<lparr> typeMap = typeMap this,
       processPrimitiveValue = (\<lambda>value typeName (s, log).
          case processPrimitiveValue this value typeName s of
            (r, s') \<Rightarrow> (r, (s', log @ [PrimitiveCall value typeName]))),
       processRemoteValue = (\<lambda>value typeName (s, log).
          case processRemoteValue this value typeName s of
            (r, s') \<Rightarrow> (r, (s', log @ [RemoteCall value typeName]))) \<rparr>"

text \<open>
  The type map of the specification's scenarios:
  \<^verbatim>\<open>{ String: {primitive: true}, Contact: {fields: {firstName: {type: 'String'}}} }\<close>.
\<close>

definition contactTypeMap :: jsval where
  "contactTypeMap = Obj
     [(''String'', Obj [(''primitive'', Bool True)]),
      (''Contact'', Obj [(''fields'', Obj [(''firstName'', Obj [(''type'', Str ''String'')])])])]"

text \<open>
  The type map of the repository's test, with a primitive type, a remote type and a
  composite type of two fields.
\<close>

definition testTypeMap :: jsval where
  "testTypeMap = Obj
     [(''String'', Obj [(''name'', Str ''String''),
                        (''label'', Str ''A Single Line Of Text''),
                        (''primitive'', Bool True)]),
      (''Address'', Obj [(''remote'', Bool True)]),
      (''Contact'', Obj [(''fields'', Obj
         [(''firstName'', Obj [(''type'', Str ''String'')]),
          (''address'', Obj [(''type'', Str ''Address'')])])])]"

text \<open>
  A type whose definition sets both flags, and types with an empty and with no
  \<^verbatim>\<open>fields\<close> map.
\<close>

definition bothFlagsTypeMap :: jsval where
  "bothFlagsTypeMap = Obj [(''Both'', Obj [(''primitive'', Bool True), (''remote'', Bool True)])]"

definition emptyFieldsTypeMap :: jsval where
  "emptyFieldsTypeMap = Obj [(''Empty'', Obj [(''fields'', Obj [])]), (''Bare'', Obj [])]"

text \<open>
  A type map read with \<^verbatim>\<open>JSON.parse\<close>, so that the field name \<^verbatim>\<open>__proto__\<close> is a key
  of the \<^verbatim>\<open>fields\<close> object like any other:
  \<^verbatim>\<open>{"String": {"primitive": true},
    "Record": {"fields": {"__proto__": {"type": "String"}, "a": {"type": "String"}}}}\<close>.
\<close>

definition protoTypeMap :: jsval where
  "protoTypeMap = Obj
     [(''String'', Obj [(''primitive'', Bool True)]),
      (''Record'', Obj [(''fields'', Obj
         [(''__proto__'', Obj [(''type'', Str ''String'')]),
          (''a'', Obj [(''type'', Str ''String'')])])])]"

text \<open>
  A subclass whose primitive hook validates: it returns a string unchanged and throws
  any other value.
\<close>

definition strictStrings :: "jsval \<Rightarrow> 's processor" where
  "strictStrings tm =
     \<lparr> typeMap = tm,
       processPrimitiveValue = (\<lambda>value typeName s.
          case value of Str x \<Rightarrow> (Inr value, s) | _ \<Rightarrow> (Inl (Thrown value), s)),
       processRemoteValue = (\<lambda>value typeName s. (Inr value, s)) \<rparr>"

section \<open>Notions of the specification\<close>

text \<open>
  A type name is absent from the type map when it is none of the map's keys. It is
  the name of an inherited property when the type map is an object whose prototype
  chain defines it, as it does \<^verbatim>\<open>constructor\<close> or \<^verbatim>\<open>toString\<close>: then
  \<^verbatim>\<open>typeMap[typeName]\<close> is a function of the runtime, which the code takes for a type
  definition.
\<close>

definition absentFromTypeMap :: "'s processor \<Rightarrow> jsval \<Rightarrow> bool" where
  "absentFromTypeMap this typeName =
     (case to_key typeName of
        None \<Rightarrow> False
      | Some key \<Rightarrow> key \<notin> set (Object_keys (typeMap this)))"

definition inheritedByTypeMap :: "'s processor \<Rightarrow> jsval \<Rightarrow> bool" where
  "inheritedByTypeMap this typeName =
     (case to_key typeName of
        None \<Rightarrow> False
      | Some key \<Rightarrow> instanceof_Object (typeMap this) \<and> inherited (typeMap this) key)"

text \<open>
  The outcome of processing each element of a list, and each declared field of an
  item, one after the other from a given state: what \<^verbatim>\<open>processValue\<close> or
  \<^verbatim>\<open>processFieldValue\<close> returns or throws at that position, and the state after the
  last. An element or a field fails when its outcome is an error.
\<close>

fun elementResults ::
  "'s processor \<Rightarrow> jsval \<Rightarrow> jsval list \<Rightarrow> 's \<Rightarrow> ((error + jsval) list \<times> 's) option" where
  "elementResults this typeName [] s = Some ([], s)"
| "elementResults this typeName (value # rest) s =
     do {
       (r, s') \<leftarrow> processValue this value typeName s;
       (rs, s'') \<leftarrow> elementResults this typeName rest s';
       Some (r # rs, s'')
     }"

fun fieldResults ::
  "'s processor \<Rightarrow> jsval \<Rightarrow> jsval \<Rightarrow> string list \<Rightarrow> 's
    \<Rightarrow> ((error + jsval) list \<times> 's) option" where
  "fieldResults this item typeName [] s = Some ([], s)"
| "fieldResults this item typeName (fieldName # rest) s =
     do {
       value \<leftarrow> get_prop item fieldName;
       (r, s') \<leftarrow> processFieldValue this value typeName fieldName s;
       (rs, s'') \<leftarrow> fieldResults this item typeName rest s';
       Some (r # rs, s'')
     }"

text \<open>The failed and the successful positions of a run, each with its error or value.\<close>

definition failures :: "'k list \<Rightarrow> (error + 'a) list \<Rightarrow> ('k \<times> error) list" where
  "failures ks rs = map (\<lambda>(k, r). (k, projl r)) (filter (\<lambda>(k, r). isl r) (zip ks rs))"

definition successes :: "'k list \<Rightarrow> (error + 'a) list \<Rightarrow> ('k \<times> 'a) list" where
  "successes ks rs = map (\<lambda>(k, r). (k, projr r)) (filter (\<lambda>(k, r). \<not> isl r) (zip ks rs))"

section \<open>Conforming inputs and the restricted copy\<close>

text \<open>
  A record in the sense of the schema is a plain object; arrays pass the code's
  \<^verbatim>\<open>instanceof Object\<close> test as well but are not records.
\<close>

fun isPlainObject :: "jsval \<Rightarrow> bool" where
  "isPlainObject (Obj ps) = True"
| "isPlainObject v = False"

lemma size_element: "x \<in> set (elements v) \<Longrightarrow> size x < size v"
  by (cases v) (auto dest: size_mem)

lemma isPlainObject_instanceof: "isPlainObject v \<Longrightarrow> instanceof_Object v"
  by (cases v) auto

lemma size_own_value: "instanceof_Object v \<Longrightarrow> size (own_value v k) < size v"
proof (cases "own_prop v k")
  case None
  assume "instanceof_Object v"
  with None show ?thesis by (cases v) (auto simp: own_value_def)
next
  case (Some w)
  assume "instanceof_Object v"
  with Some show ?thesis by (auto simp: own_value_def dest: size_own_prop)
qed

text \<open>
  A value conforms to a type the type map defines when the type is primitive or
  remote (the schema says nothing more of a leaf), or the value is absent, or it is
  a plain object each of whose declared fields holds a value that conforms to the
  field's type, or, for a field marked \<^verbatim>\<open>multiple\<close>, nothing or an array of such
  values. The schema has no required fields: a field that the record lacks holds
  \<^verbatim>\<open>undefined\<close>.
\<close>

function conformsTo :: "'s processor \<Rightarrow> jsval \<Rightarrow> jsval \<Rightarrow> bool" where
  "conformsTo this value typeName =
     (case getTypeDefinition this typeName of
        Some (Inr typeDefinition) \<Rightarrow>
          if truthy (own_value typeDefinition ''primitive'') \<or>
             truthy (own_value typeDefinition ''remote'') then True
          else if \<not> valueExists value then True
          else if \<not> isPlainObject value then False
          else
            (case getFieldList this typeName of
               Some (Inr fieldList) \<Rightarrow>
                 list_all (\<lambda>fieldName.
                   case getFieldDescriptor this typeName fieldName of
                     Some (Inr fieldDescriptor) \<Rightarrow>
                       if truthy (own_value fieldDescriptor ''multiple'') then
                         (if \<not> valueExists (own_value value fieldName) then True
                          else if \<not> instanceof_Array (own_value value fieldName) then False
                          else list_all
                            (\<lambda>x. conformsTo this x (own_value fieldDescriptor ''type''))
                            (elements (own_value value fieldName)))
                       else conformsTo this (own_value value fieldName)
                              (own_value fieldDescriptor ''type'')
                   | _ \<Rightarrow> False)
                   fieldList
             | _ \<Rightarrow> False)
      | _ \<Rightarrow> False)"
  by pat_completeness auto
termination
proof (relation "measure (\<lambda>(this, value, typeName). size value)", goal_cases)
  case 1
  show ?case by simp
next
  case (2 this v T r td r' fl f r'' d x)
  then have "size x < size (own_value v f)" "size (own_value v f) < size v"
    by (simp_all add: size_element size_own_value isPlainObject_instanceof)
  then show ?case by simp
next
  case (3 this v T r td r' fl f r'' d)
  then show ?case
    by (simp add: size_own_value isPlainObject_instanceof)
qed

text \<open>
  The input restricted to the declared fields of its type: every record keeps, in
  its own order, the properties its type declares and loses the others, at every
  depth; everything else is kept as it is. The completed copy has, after these,
  \<^verbatim>\<open>undefined\<close> under every declared field that the record lacks.
\<close>

function restrictToDeclared :: "'s processor \<Rightarrow> bool \<Rightarrow> jsval \<Rightarrow> jsval \<Rightarrow> jsval" where
  "restrictToDeclared this completed value typeName =
     (case getTypeDefinition this typeName of
        Some (Inr typeDefinition) \<Rightarrow>
          if truthy (own_value typeDefinition ''primitive'') \<or>
             truthy (own_value typeDefinition ''remote'') then value
          else if \<not> isPlainObject value then value
          else
            (case getFieldList this typeName of
               Some (Inr fieldList) \<Rightarrow>
                 Obj (map (\<lambda>k.
                   (k, case getFieldDescriptor this typeName k of
                         Some (Inr fieldDescriptor) \<Rightarrow>
                           if truthy (own_value fieldDescriptor ''multiple'') then
                             (if instanceof_Array (own_value value k) then
                                Arr (map (\<lambda>x. restrictToDeclared this completed x
                                            (own_value fieldDescriptor ''type''))
                                       (elements (own_value value k)))
                              else own_value value k)
                           else restrictToDeclared this completed (own_value value k)
                                  (own_value fieldDescriptor ''type'')
                       | _ \<Rightarrow> own_value value k))
                   (filter (\<lambda>k. k \<in> set fieldList) (Object_keys value) @
                    (if completed then filter (\<lambda>k. k \<notin> set (Object_keys value)) fieldList
                     else [])))
             | _ \<Rightarrow> value)
      | _ \<Rightarrow> value)"
  by pat_completeness auto
termination
proof (relation "measure (\<lambda>(this, completed, value, typeName). size value)", goal_cases)
  case 1
  show ?case by simp
next
  case (2 this c v T r td r' fl f r'' d x)
  then have "size x < size (own_value v f)" "size (own_value v f) < size v"
    by (simp_all add: size_element size_own_value isPlainObject_instanceof)
  then show ?case by simp
next
  case (3 this c v T r td r' fl f r'' d)
  then show ?case
    by (simp add: size_own_value isPlainObject_instanceof)
qed


declare conformsTo.simps [simp del] restrictToDeclared.simps [simp del]



section \<open>Auxiliary facts\<close>

lemma failures_simps [simp]:
  "failures [] rs = []" "failures ks [] = []"
  "failures (k # ks) (Inl e # rs) = (k, e) # failures ks rs"
  "failures (k # ks) (Inr v # rs) = failures ks rs"
  by (simp_all add: failures_def)

lemma successes_simps [simp]:
  "successes [] rs = []" "successes ks [] = []"
  "successes (k # ks) (Inl e # rs) = successes ks rs"
  "successes (k # ks) (Inr v # rs) = (k, v) # successes ks rs"
  by (simp_all add: successes_def)

lemma failures_keys:
  "fst ` set (failures ks rs) = {ks ! j | j. j < length ks \<and> j < length rs \<and> isl (rs ! j)}"
  by (force simp: failures_def set_zip image_iff)

lemma failures_lookup:
  assumes "distinct ks" "j < length ks" "j < length rs" "isl (rs ! j)"
  shows "map_of (failures ks rs) (ks ! j) = Some (projl (rs ! j))"
proof -
  have "distinct (map fst (failures ks rs))"
    using assms(1)
    by (induction ks rs rule: list_induct2') (auto simp: failures_def dest: set_zip_leftD)
  moreover have "(ks ! j, projl (rs ! j)) \<in> set (failures ks rs)"
    using assms(2-4) by (force simp: failures_def set_zip image_iff)
  ultimately show ?thesis by simp
qed

lemma failures_Nil_iff:
  "length rs = length ks \<Longrightarrow> failures ks rs = [] \<longleftrightarrow> (\<forall>r \<in> set rs. \<not> isl r)"
  by (induction ks rs rule: list_induct2') (auto simp: failures_def)

lemma successes_all:
  "length rs = length ks \<Longrightarrow> \<forall>r \<in> set rs. \<not> isl r \<Longrightarrow> successes ks rs = zip ks (map projr rs)"
  by (induction ks rs rule: list_induct2') (auto simp: successes_def)

lemma update_fresh: "k \<notin> fst ` set al \<Longrightarrow> AList.update k v al = al @ [(k, v)]"
  by (induction al) auto

lemma elementResults_Cons:
  "elementResults this T (x # xs) s = Some (rs, s') \<longleftrightarrow>
     (\<exists>r s1 rs1. processValue this x T s = Some (r, s1) \<and>
        elementResults this T xs s1 = Some (rs1, s') \<and> rs = r # rs1)"
  by (auto split: Option.bind_splits)

lemma fieldResults_Cons:
  "fieldResults this item T (f # fs) s = Some (rs, s') \<longleftrightarrow>
     (\<exists>v r s1 rs1. get_prop item f = Some v \<and> processFieldValue this v T f s = Some (r, s1) \<and>
        fieldResults this item T fs s1 = Some (rs1, s') \<and> rs = r # rs1)"
  by (auto split: Option.bind_splits)

lemma elementResults_length:
  "elementResults this T xs s = Some (rs, s') \<Longrightarrow> length rs = length xs"
  by (induction xs arbitrary: s rs) (auto simp: elementResults_Cons simp del: elementResults.simps(2))

lemma fieldResults_length:
  "fieldResults this item T fs s = Some (rs, s') \<Longrightarrow> length rs = length fs"
  by (induction fs arbitrary: s rs) (auto simp: fieldResults_Cons simp del: fieldResults.simps(2))

lemma processValueList_loop_results:
  "\<forall>k \<in> fst ` set errorIndices. k < i \<Longrightarrow>
   elementResults this T xs s = Some (rs, s') \<Longrightarrow>
   processValueList_loop this T xs i newList errorIndices s
     = Some ((newList @ map snd (successes [i..<i + length xs] rs),
              errorIndices @ failures [i..<i + length xs] rs), s')"
proof (induction xs arbitrary: i newList errorIndices s rs)
  case Nil
  then show ?case by simp
next
  case (Cons x xs)
  from Cons.prems(2) obtain r s1 rs1 where r: "processValue this x T s = Some (r, s1)"
    and rs1: "elementResults this T xs s1 = Some (rs1, s')" and rs: "rs = r # rs1"
    unfolding elementResults_Cons by blast
  have upt: "[i..<i + length (x # xs)] = i # [Suc i..<Suc i + length xs]"
    by (subst upt_rec) simp
  show ?case
  proof (cases r)
    case (Inl e)
    have fresh: "i \<notin> fst ` set errorIndices"
      using Cons.prems(1) by auto
    have "\<forall>k \<in> fst ` set (AList.update i e errorIndices). k < Suc i"
      using Cons.prems(1) by (auto simp: update_fresh [OF fresh])
    from Cons.IH [OF this rs1] r Inl rs show ?thesis
      unfolding upt by (simp add: update_fresh [OF fresh])
  next
    case (Inr v)
    have "\<forall>k \<in> fst ` set errorIndices. k < Suc i"
      using Cons.prems(1) by auto
    from Cons.IH [OF this rs1] r Inr rs show ?thesis
      unfolding upt by simp
  qed
qed

text \<open>
  The item loop sets one key for each field name, in the order of the names, as long
  as \<^verbatim>\<open>__proto__\<close> is none of them.
\<close>

lemma processItem_loop_results:
  "distinct fs \<Longrightarrow> ''__proto__'' \<notin> set fs \<Longrightarrow> set fs \<inter> fst ` set newItem = {} \<Longrightarrow>
   set fs \<inter> fst ` set errorFields = {} \<Longrightarrow>
   fieldResults this item T fs s = Some (rs, s') \<Longrightarrow>
   processItem_loop this item T fs newItem errorFields s
     = Some ((newItem @ successes fs rs, errorFields @ failures fs rs), s')"
proof (induction fs arbitrary: newItem errorFields s rs)
  case Nil
  then show ?case by simp
next
  case (Cons f fs)
  from Cons.prems(5) obtain v r s1 rs1 where v: "get_prop item f = Some v"
    and r: "processFieldValue this v T f s = Some (r, s1)"
    and rs1: "fieldResults this item T fs s1 = Some (rs1, s')" and rs: "rs = r # rs1"
    unfolding fieldResults_Cons by blast
  have d: "distinct fs" and f: "f \<notin> set fs" and p: "''__proto__'' \<notin> set fs"
    and fp: "f \<noteq> ''__proto__''"
    using Cons.prems(1,2) by auto
  show ?case
  proof (cases r)
    case (Inl e)
    have fresh: "f \<notin> fst ` set errorFields"
      using Cons.prems(4) by auto
    have 1: "set fs \<inter> fst ` set newItem = {}"
      using Cons.prems(3) by auto
    have 2: "set fs \<inter> fst ` set (AList.update f e errorFields) = {}"
      using Cons.prems(4) f by (auto simp: update_fresh [OF fresh])
    from Cons.IH [OF d p 1 2 rs1] v r Inl rs fp show ?thesis
      by (simp add: update_fresh [OF fresh] set_error_def)
  next
    case (Inr w)
    have fresh: "f \<notin> fst ` set newItem"
      using Cons.prems(3) by auto
    have 1: "set fs \<inter> fst ` set (AList.update f w newItem) = {}"
      using Cons.prems(3) f by (auto simp: update_fresh [OF fresh])
    have 2: "set fs \<inter> fst ` set errorFields = {}"
      using Cons.prems(4) by auto
    from Cons.IH [OF d p 1 2 rs1] v r Inr rs fp show ?thesis
      by (simp add: update_fresh [OF fresh] set_prop_def)
  qed
qed

lemma get_prop_own_value:
  "\<not> inherited v k \<Longrightarrow> get_prop v k = Some (own_value v k)"
  by (simp add: get_prop_def own_value_def split: option.splits)

lemma get_prop_SomeD: "get_prop v k = Some w \<Longrightarrow> w = own_value v k"
  by (auto simp: get_prop_def own_value_def split: option.splits if_splits)

lemma schema_names [simp]:
  assumes "instanceof_Object v"
  shows "get_prop v ''primitive'' = Some (own_value v ''primitive'')"
    and "get_prop v ''remote'' = Some (own_value v ''remote'')"
    and "get_prop v ''fields'' = Some (own_value v ''fields'')"
    and "get_prop v ''type'' = Some (own_value v ''type'')"
    and "get_prop v ''multiple'' = Some (own_value v ''multiple'')"
    and "get_prop v ''features'' = Some (own_value v ''features'')"
  using assms
  by (cases v; simp add: get_prop_own_value objectPrototypeNames_def arrayPrototypeNames_def)+

lemma digit_inj: "n < 10 \<Longrightarrow> m < 10 \<Longrightarrow> ''0123456789'' ! n = ''0123456789'' ! m \<Longrightarrow> n = m"
  by (simp add: nth_eq_iff_index_eq)

lemma string_of_nat_nonempty: "string_of_nat n \<noteq> []"
  by (subst string_of_nat.simps) simp

lemma string_of_nat_inj: "string_of_nat n = string_of_nat m \<Longrightarrow> n = m"
proof (induction n arbitrary: m rule: string_of_nat.induct)
  case (1 n)
  show ?case
  proof (cases "n < 10")
    case True
    then have n: "string_of_nat n = [''0123456789'' ! n]"
      by (subst string_of_nat.simps) simp
    show ?thesis
    proof (cases "m < 10")
      case m: True
      then have "string_of_nat m = [''0123456789'' ! m]"
        by (subst string_of_nat.simps) simp
      with n "1.prems" have "''0123456789'' ! n = ''0123456789'' ! m" by simp
      with True m show ?thesis by (rule digit_inj)
    next
      case False
      then have "string_of_nat m = string_of_nat (m div 10) @ [''0123456789'' ! (m mod 10)]"
        by (subst string_of_nat.simps) simp
      with n "1.prems" string_of_nat_nonempty [of "m div 10"] show ?thesis
        by (cases "string_of_nat (m div 10)") auto
    qed
  next
    case False
    then have n: "string_of_nat n = string_of_nat (n div 10) @ [''0123456789'' ! (n mod 10)]"
      by (subst string_of_nat.simps) simp
    show ?thesis
    proof (cases "m < 10")
      case True
      then have "string_of_nat m = [''0123456789'' ! m]"
        by (subst string_of_nat.simps) simp
      with n "1.prems" string_of_nat_nonempty [of "n div 10"] show ?thesis
        by (cases "string_of_nat (n div 10)") auto
    next
      case m: False
      then have "string_of_nat m = string_of_nat (m div 10) @ [''0123456789'' ! (m mod 10)]"
        by (subst string_of_nat.simps) simp
      with n "1.prems" have eq: "string_of_nat (n div 10) = string_of_nat (m div 10)"
        and d: "''0123456789'' ! (n mod 10) = ''0123456789'' ! (m mod 10)"
        by simp_all
      from "1.IH" [OF False eq] have "n div 10 = m div 10" .
      moreover from d have "n mod 10 = m mod 10"
        by (intro digit_inj) simp_all
      ultimately show ?thesis
        by (metis div_mult_mod_eq)
    qed
  qed
qed

lemma string_of_nat_distinct: "distinct (map string_of_nat [0..<n])"
  by (auto simp: distinct_map inj_on_def dest: string_of_nat_inj)

lemma Object_keys_distinct: "distinct (Object_keys v)"
  by (cases v) (simp_all add: string_of_nat_distinct)

lemma getTypeDefinition_object:
  "getTypeDefinition this T = Some (Inr typeDefinition) \<Longrightarrow> instanceof_Object typeDefinition"
  by (auto simp: getTypeDefinition_def split: if_splits Option.bind_splits)

lemma getTypeDefinition_error:
  "getTypeDefinition this T = Some (Inl e) \<Longrightarrow> e = NonExistentType"
  by (auto simp: getTypeDefinition_def split: if_splits Option.bind_splits)

lemma getFieldList_distinct: "getFieldList this T = Some (Inr fl) \<Longrightarrow> distinct fl"
  by (auto simp: getFieldList_def Object_keys_distinct
      split: sum.splits if_splits Option.bind_splits)

lemma getFieldList_error:
  "getFieldList this T = Some (Inl e) \<Longrightarrow> e = NonExistentType \<or> e = MissingFieldsForType"
  by (auto simp: getFieldList_def dest: getTypeDefinition_error
      split: sum.splits if_splits Option.bind_splits)

text \<open>
  A name that is no key of a value and that the value does not inherit reads as
  something that is not an object: \<^verbatim>\<open>undefined\<close>, or the length of an array.
\<close>

lemma absent_get_prop:
  assumes "instanceof_Object v" "k \<notin> set (Object_keys v)" "\<not> inherited v k"
  shows "\<exists>w. get_prop v k = Some w \<and> \<not> instanceof_Object w"
proof (cases v)
  case (Obj ps)
  with assms(2) have "k \<notin> fst ` set ps"
    using AList.clearjunk_keys_set [of ps] by simp
  then have "map_of ps k = None"
    by (simp add: map_of_eq_None_iff)
  with Obj assms(3) show ?thesis by (simp add: get_prop_def)
next
  case (Arr xs)
  with assms(2) have "index_of_key (length xs) k = None"
    by (auto simp: index_of_key_def find_None_iff)
  with Arr assms(3) show ?thesis by (simp add: get_prop_def)
qed (use assms(1) in auto)

lemma absent_getTypeDefinition:
  assumes "absentFromTypeMap this T" "\<not> inheritedByTypeMap this T"
  shows "getTypeDefinition this T = Some (Inl NonExistentType)"
proof (cases "instanceof_Object (typeMap this)")
  case False
  then show ?thesis by (simp add: getTypeDefinition_def)
next
  case True
  from assms True obtain key where key: "to_key T = Some key"
    "key \<notin> set (Object_keys (typeMap this))" "\<not> inherited (typeMap this) key"
    by (auto simp: absentFromTypeMap_def inheritedByTypeMap_def split: option.splits)
  from absent_get_prop [OF True key(2,3)] key(1) True show ?thesis
    by (auto simp: getTypeDefinition_def)
qed

lemma absent_elementResults:
  "getTypeDefinition this T = Some (Inl e) \<Longrightarrow>
   elementResults this T xs s = Some (replicate (length xs) (Inl e), s)"
  by (induction xs) (simp_all add: processValue.simps)

lemma failures_replicate:
  "length ks = n \<Longrightarrow> failures ks (replicate n (Inl e)) = map (\<lambda>k. (k, e)) ks"
  by (induction ks arbitrary: n) auto

lemma successes_replicate: "successes ks (replicate n (Inl e)) = []"
proof (induction ks arbitrary: n)
  case Nil
  show ?case by simp
next
  case (Cons k ks)
  then show ?case by (cases n) simp_all
qed

lemma recording_simps [simp]:
  "typeMap (recording this) = typeMap this"
  "processPrimitiveValue (recording this) v T (s, log) =
     (case processPrimitiveValue this v T s of (r, s') \<Rightarrow> (r, (s', log @ [PrimitiveCall v T])))"
  "processRemoteValue (recording this) v T (s, log) =
     (case processRemoteValue this v T s of (r, s') \<Rightarrow> (r, (s', log @ [RemoteCall v T])))"
  by (simp_all add: recording_def)

lemma getTypeDefinition_recording [simp]:
  "getTypeDefinition (recording this) T = getTypeDefinition this T"
  by (simp add: getTypeDefinition_def)

lemma successes_values:
  "length ks = length rs \<Longrightarrow> map snd (successes ks rs) = map projr (filter (\<lambda>r. \<not> isl r) rs)"
  by (induction ks rs rule: list_induct2) (auto simp: successes_def)

lemma successes_keys_all:
  "length ks = length rs \<Longrightarrow> \<forall>r \<in> set rs. \<not> isl r \<Longrightarrow> map fst (successes ks rs) = ks"
  by (induction ks rs rule: list_induct2) (auto simp: successes_def)

lemma successes_lookup:
  assumes "distinct ks" "j < length ks" "j < length rs" "\<not> isl (rs ! j)"
  shows "map_of (successes ks rs) (ks ! j) = Some (projr (rs ! j))"
proof -
  have "distinct (map fst (successes ks rs))"
    using assms(1)
    by (induction ks rs rule: list_induct2') (auto simp: successes_def dest: set_zip_leftD)
  moreover have "(ks ! j, projr (rs ! j)) \<in> set (successes ks rs)"
    using assms(2-4) by (force simp: successes_def set_zip image_iff)
  ultimately show ?thesis by simp
qed

lemma failures_length:
  "length ks = length rs \<Longrightarrow> length (successes ks rs) + length (failures ks rs) = length rs"
  by (induction ks rs rule: list_induct2) (auto simp: successes_def failures_def)

lemma failing_indices:
  "length rs = n \<Longrightarrow> fst ` set (failures [0..<n] rs) = {i. i < n \<and> isl (rs ! i)}"
proof -
  assume len: "length rs = n"
  have "{[0..<n] ! j | j. j < length [0..<n] \<and> j < length rs \<and> isl (rs ! j)}
      = {i. i < n \<and> isl (rs ! i)}" (is "?L = ?R")
  proof
    show "?L \<subseteq> ?R" by auto
    show "?R \<subseteq> ?L"
    proof
      fix i assume "i \<in> ?R"
      with len have "i = [0..<n] ! i \<and> i < length [0..<n] \<and> i < length rs \<and> isl (rs ! i)"
        by simp
      then show "i \<in> ?L" by blast
    qed
  qed
  then show ?thesis by (simp only: failures_keys)
qed

lemma recording_loop_primitive:
  assumes "getTypeDefinition this T = Some (Inr typeDefinition)"
    and "truthy (own_value typeDefinition ''primitive'')"
  shows "\<exists>out s'. processValueList_loop (recording this) T xs i newList errorIndices (s, log)
           = Some (out, (s', log @ map (\<lambda>x. PrimitiveCall x T) xs))"
proof (induction xs arbitrary: i newList errorIndices s log)
  case Nil
  show ?case by simp
next
  case (Cons x xs)
  obtain r s1 where r: "processPrimitiveValue this x T s = (r, s1)"
    by (cases "processPrimitiveValue this x T s")
  with assms getTypeDefinition_object [OF assms(1)]
  have "processValue (recording this) x T (s, log)
      = Some (r, (s1, log @ [PrimitiveCall x T]))"
    by (simp add: processValue.simps)
  then show ?case
    using Cons.IH [of _ _ _ s1 "log @ [PrimitiveCall x T]"]
    by (cases r) simp_all
qed




























text \<open>
  What the item processor does for a type none of whose declared fields is
  \<^verbatim>\<open>__proto__\<close>: with the declared fields that fail it raises an \<^verbatim>\<open>ITEM_ERROR\<close> whose map
  has exactly these as keys, each with the error caught, and when none fails it
  returns the record of all declared fields, each with its processed value, and of
  nothing else.
\<close>

lemma processItem_ordinary_fields:
  assumes "instanceof_Object item"
    and "getFieldList this T = Some (Inr fieldList)"
    and "''__proto__'' \<notin> set fieldList"
    and "fieldResults this item T fieldList s = Some (rs, s')"
    and "F = {fieldList ! j | j. j < length fieldList \<and> isl (rs ! j)}"
  shows "(F \<noteq> {} \<longrightarrow>
           (\<exists>errorFields. processItem this item T s = Some (Inl (ItemError errorFields), s') \<and>
              fst ` set errorFields = F \<and>
              (\<forall>j < length fieldList. isl (rs ! j) \<longrightarrow>
                 map_of errorFields (fieldList ! j) = Some (projl (rs ! j))))) \<and>
         (F = {} \<longrightarrow>
           (\<exists>newItem. processItem this item T s = Some (Inr (Obj newItem), s') \<and>
              map fst newItem = fieldList \<and>
              (\<forall>j < length fieldList.
                 map_of newItem (fieldList ! j) = Some (projr (rs ! j)))))"
proof -
  have len: "length rs = length fieldList"
    using assms(4) by (rule fieldResults_length)
  have d: "distinct fieldList"
    using assms(2) by (rule getFieldList_distinct)
  have loop: "processItem_loop this item T fieldList [] [] s
      = Some ((successes fieldList rs, failures fieldList rs), s')"
    using processItem_loop_results [OF d assms(3) _ _ assms(4), of "[]" "[]"] by simp
  have keys: "fst ` set (failures fieldList rs) = F"
    using len assms(5) by (auto simp: failures_keys)
  have lookup: "\<forall>j < length fieldList. isl (rs ! j) \<longrightarrow>
      map_of (failures fieldList rs) (fieldList ! j) = Some (projl (rs ! j))"
    using failures_lookup [OF d, of _ rs] len by auto
  have none: "failures fieldList rs = [] \<longleftrightarrow> F = {}"
    using keys by auto
  have ok: "\<forall>r \<in> set rs. \<not> isl r" if "F = {}"
    using that none len by (simp add: failures_Nil_iff)
  have names: "map fst (successes fieldList rs) = fieldList" if "F = {}"
    using ok [OF that] len by (simp add: successes_keys_all)
  have vals: "\<forall>j < length fieldList.
      map_of (successes fieldList rs) (fieldList ! j) = Some (projr (rs ! j))" if "F = {}"
    using ok [OF that] successes_lookup [OF d, of _ rs] len by auto
  show ?thesis
    using assms(1,2) loop keys lookup none names vals by (auto simp: processItem.simps)
qed

section \<open>Absent and misshapen inputs\<close>

text \<open>
  Claim C7 says that every input that exists and is not record-shaped makes
  \<^verbatim>\<open>processItem\<close> fail with \<^verbatim>\<open>INVALID_ITEM\<close>. The test of the code is
  \<^verbatim>\<open>item instanceof Object\<close>, which an array passes: the array \<^verbatim>\<open>['Ann']\<close> is no record,
  and \<^verbatim>\<open>processItem\<close> reads the declared fields off it and returns
  \<^verbatim>\<open>{firstName: undefined}\<close>.
\<close>

theorem array_item_counterexample:
  "valueExists (Arr [Str ''Ann'']) \<and> \<not> isPlainObject (Arr [Str ''Ann'']) \<and>
   processItem (AbstractTypeProcessor contactTypeMap) (Arr [Str ''Ann'']) (Str ''Contact'') ()
     = Some (Inr (Obj [(''firstName'', Undefined)]), ())"
  by (simp add: valueExists_def processItem.simps processFieldValue.simps processValue.simps
      AbstractTypeProcessor_def contactTypeMap_def getFieldList_def getFieldDescriptor_def
      getTypeDefinition_def get_prop_def set_prop_def index_of_key_def
      string_of_nat.simps [of 0] objectPrototypeNames_def arrayPrototypeNames_def)

text \<open>
  Claim C7, amended. For every type name and every absent input (\<^verbatim>\<open>undefined\<close> or
  \<^verbatim>\<open>null\<close>), \<^verbatim>\<open>processValueList\<close> and \<^verbatim>\<open>processItem\<close> return the input unchanged and
  invoke no hook: the state of the world is the one they were started in, and under a
  recording subclass the log of hook calls is untouched. An input that exists and is
  not an array makes \<^verbatim>\<open>processValueList\<close> fail with \<^verbatim>\<open>INVALID_VALUE_LIST\<close>. An input
  that exists and is not an object (a string, a number, a boolean) makes
  \<^verbatim>\<open>processItem\<close> fail with \<^verbatim>\<open>INVALID_ITEM\<close>; every object, an array too, is taken for
  a record, and \<^verbatim>\<open>processItem\<close> does not fail with \<^verbatim>\<open>INVALID_ITEM\<close> on it.
\<close>

theorem absent_passthrough_and_shape_errors:
  "(\<not> valueExists v \<longrightarrow>
      processValueList this v T s = Some (Inr v, s) \<and>
      processItem this v T s = Some (Inr v, s) \<and>
      processValueList (recording this) v T (s, log) = Some (Inr v, (s, log)) \<and>
      processItem (recording this) v T (s, log) = Some (Inr v, (s, log))) \<and>
   (valueExists v \<and> \<not> instanceof_Array v \<longrightarrow>
      processValueList this v T s = Some (Inl InvalidValueList, s)) \<and>
   (valueExists v \<and> \<not> instanceof_Object v \<longrightarrow>
      processItem this v T s = Some (Inl InvalidItem, s)) \<and>
   (instanceof_Object v \<longrightarrow> processItem this v T s \<noteq> Some (Inl InvalidItem, s'))"
proof (intro conjI impI)
  assume "instanceof_Object v"
  then show "processItem this v T s \<noteq> Some (Inl InvalidItem, s')"
    by (auto simp: processItem.simps dest: getFieldList_error
        split: Option.bind_splits sum.splits prod.splits if_splits)
qed (cases v; simp add: valueExists_def processItem.simps processValueList.simps)+

theorem absent_passthrough_and_shape_errors_witness:
  "\<not> valueExists Null \<and>
   processValueList (AbstractTypeProcessor contactTypeMap) Null (Str ''Contact'') ()
     = Some (Inr Null, ()) \<and>
   processItem (AbstractTypeProcessor contactTypeMap) Null (Str ''Contact'') ()
     = Some (Inr Null, ()) \<and>
   processItem (recording (AbstractTypeProcessor contactTypeMap)) Null (Str ''Contact'') ((), [])
     = Some (Inr Null, ((), [])) \<and>
   valueExists (Str ''Ann'') \<and> \<not> instanceof_Array (Str ''Ann'') \<and>
   \<not> instanceof_Object (Str ''Ann'') \<and>
   processValueList (AbstractTypeProcessor contactTypeMap) (Str ''Ann'') (Str ''String'') ()
     = Some (Inl InvalidValueList, ()) \<and>
   processItem (AbstractTypeProcessor contactTypeMap) (Str ''Ann'') (Str ''Contact'') ()
     = Some (Inl InvalidItem, ()) \<and>
   instanceof_Object (Arr [Str ''Ann'']) \<and>
   processItem (AbstractTypeProcessor contactTypeMap) (Arr [Str ''Ann'']) (Str ''Contact'') ()
     \<noteq> Some (Inl InvalidItem, ())"
proof -
  have absent: "\<not> valueExists Null"
    by (simp add: valueExists_def)
  have present: "valueExists (Str ''Ann'')"
    by (simp add: valueExists_def)
  show ?thesis
    using absent present
      absent_passthrough_and_shape_errors
        [of Null "AbstractTypeProcessor contactTypeMap" "Str ''Contact''" "()" "[]" "()"]
      absent_passthrough_and_shape_errors
        [of "Str ''Ann''" "AbstractTypeProcessor contactTypeMap" "Str ''String''" "()" "[]" "()"]
      absent_passthrough_and_shape_errors
        [of "Str ''Ann''" "AbstractTypeProcessor contactTypeMap" "Str ''Contact''" "()" "[]" "()"]
      absent_passthrough_and_shape_errors
        [of "Arr [Str ''Ann'']" "AbstractTypeProcessor contactTypeMap" "Str ''Contact''" "()" "[]" "()"]
    by simp
qed

section \<open>The empty list\<close>

text \<open>
  Claim C9. For every type name, also one the type map does not define,
  \<^verbatim>\<open>processValueList\<close> applied to the empty list returns the empty list. It raises
  nothing, consults no type definition (the result is the same for every type map,
  even one that is not an object) and invokes no hook (the state and the log of hook
  calls are unchanged).
\<close>

theorem processValueList_empty:
  "processValueList this (Arr []) T s = Some (Inr (Arr []), s) \<and>
   processValueList (this\<lparr>typeMap := tm\<rparr>) (Arr []) T s = Some (Inr (Arr []), s) \<and>
   processValueList (recording this) (Arr []) T (s, log) = Some (Inr (Arr []), (s, log))"
  by (simp add: processValueList.simps)

section \<open>Dispatch on the type definition\<close>

text \<open>
  Claim C4. For every type definition, \<^verbatim>\<open>processValue\<close> dispatches three ways. If
  \<^verbatim>\<open>primitive\<close> is truthy the result is that of the primitive hook, and the hook
  calls of the run are exactly that one call, whatever \<^verbatim>\<open>remote\<close> is: with both
  flags set the primitive hook is invoked and the remote hook is not. Otherwise, if
  \<^verbatim>\<open>remote\<close> is truthy, the same holds of the remote hook. Otherwise the value is
  processed as an item.
\<close>

theorem processValue_dispatch:
  "getTypeDefinition this T = Some (Inr typeDefinition) \<longrightarrow>
     (truthy (own_value typeDefinition ''primitive'') \<longrightarrow>
        processValue this v T s = Some (processPrimitiveValue this v T s) \<and>
        processValue (recording this) v T (s, log) =
          (case processPrimitiveValue this v T s of
             (r, s') \<Rightarrow> Some (r, (s', log @ [PrimitiveCall v T])))) \<and>
     (\<not> truthy (own_value typeDefinition ''primitive'') \<and>
      truthy (own_value typeDefinition ''remote'') \<longrightarrow>
        processValue this v T s = Some (processRemoteValue this v T s) \<and>
        processValue (recording this) v T (s, log) =
          (case processRemoteValue this v T s of
             (r, s') \<Rightarrow> Some (r, (s', log @ [RemoteCall v T])))) \<and>
     (\<not> truthy (own_value typeDefinition ''primitive'') \<and>
      \<not> truthy (own_value typeDefinition ''remote'') \<longrightarrow>
        processValue this v T s = processItem this v T s \<and>
        processValue (recording this) v T (s, log) = processItem (recording this) v T (s, log))"
proof
  assume td: "getTypeDefinition this T = Some (Inr typeDefinition)"
  from getTypeDefinition_object [OF td] td
  show "(truthy (own_value typeDefinition ''primitive'') \<longrightarrow>
        processValue this v T s = Some (processPrimitiveValue this v T s) \<and>
        processValue (recording this) v T (s, log) =
          (case processPrimitiveValue this v T s of
             (r, s') \<Rightarrow> Some (r, (s', log @ [PrimitiveCall v T])))) \<and>
     (\<not> truthy (own_value typeDefinition ''primitive'') \<and>
      truthy (own_value typeDefinition ''remote'') \<longrightarrow>
        processValue this v T s = Some (processRemoteValue this v T s) \<and>
        processValue (recording this) v T (s, log) =
          (case processRemoteValue this v T s of
             (r, s') \<Rightarrow> Some (r, (s', log @ [RemoteCall v T])))) \<and>
     (\<not> truthy (own_value typeDefinition ''primitive'') \<and>
      \<not> truthy (own_value typeDefinition ''remote'') \<longrightarrow>
        processValue this v T s = processItem this v T s \<and>
        processValue (recording this) v T (s, log) = processItem (recording this) v T (s, log))"
    by (simp add: processValue.simps split: prod.splits)
qed

theorem processValue_dispatch_witness:
  "getTypeDefinition (AbstractTypeProcessor bothFlagsTypeMap :: unit processor) (Str ''Both'')
     = Some (Inr (Obj [(''primitive'', Bool True), (''remote'', Bool True)])) \<and>
   truthy (own_value (Obj [(''primitive'', Bool True), (''remote'', Bool True)]) ''primitive'') \<and>
   truthy (own_value (Obj [(''primitive'', Bool True), (''remote'', Bool True)]) ''remote'') \<and>
   processValue (recording (AbstractTypeProcessor bothFlagsTypeMap)) (Str ''x'') (Str ''Both'') ((), [])
     = Some (Inr (Str ''x''), ((), [PrimitiveCall (Str ''x'') (Str ''Both'')])) \<and>
   getTypeDefinition (AbstractTypeProcessor testTypeMap :: unit processor) (Str ''Address'')
     = Some (Inr (Obj [(''remote'', Bool True)])) \<and>
   \<not> truthy (own_value (Obj [(''remote'', Bool True)]) ''primitive'') \<and>
   truthy (own_value (Obj [(''remote'', Bool True)]) ''remote'') \<and>
   processValue (recording (AbstractTypeProcessor testTypeMap)) (Str ''x'') (Str ''Address'') ((), [])
     = Some (Inr (Str ''x''), ((), [RemoteCall (Str ''x'') (Str ''Address'')])) \<and>
   getTypeDefinition (AbstractTypeProcessor emptyFieldsTypeMap :: unit processor) (Str ''Bare'')
     = Some (Inr (Obj [])) \<and>
   \<not> truthy (own_value (Obj []) ''primitive'') \<and> \<not> truthy (own_value (Obj []) ''remote'') \<and>
   processValue (AbstractTypeProcessor emptyFieldsTypeMap) (Str ''x'') (Str ''Bare'') ()
     = processItem (AbstractTypeProcessor emptyFieldsTypeMap) (Str ''x'') (Str ''Bare'') ()"
proof -
  have both: "getTypeDefinition (AbstractTypeProcessor bothFlagsTypeMap :: unit processor) (Str ''Both'')
     = Some (Inr (Obj [(''primitive'', Bool True), (''remote'', Bool True)]))"
    by (simp add: getTypeDefinition_def AbstractTypeProcessor_def bothFlagsTypeMap_def get_prop_def)
  have address: "getTypeDefinition (AbstractTypeProcessor testTypeMap :: unit processor) (Str ''Address'')
     = Some (Inr (Obj [(''remote'', Bool True)]))"
    by (simp add: getTypeDefinition_def AbstractTypeProcessor_def testTypeMap_def get_prop_def)
  have bare: "getTypeDefinition (AbstractTypeProcessor emptyFieldsTypeMap :: unit processor) (Str ''Bare'')
     = Some (Inr (Obj []))"
    by (simp add: getTypeDefinition_def AbstractTypeProcessor_def emptyFieldsTypeMap_def get_prop_def)
  have hooks: "processPrimitiveValue (AbstractTypeProcessor bothFlagsTypeMap) (Str ''x'') (Str ''Both'') ()
     = (Inr (Str ''x''), ())"
    "processRemoteValue (AbstractTypeProcessor testTypeMap) (Str ''x'') (Str ''Address'') ()
     = (Inr (Str ''x''), ())"
    by (simp_all add: AbstractTypeProcessor_def)
  show ?thesis
    using both address bare hooks
      processValue_dispatch [of "AbstractTypeProcessor bothFlagsTypeMap" "Str ''Both''"
        "Obj [(''primitive'', Bool True), (''remote'', Bool True)]" "Str ''x''" "()" "[]"]
      processValue_dispatch [of "AbstractTypeProcessor testTypeMap" "Str ''Address''"
        "Obj [(''remote'', Bool True)]" "Str ''x''" "()" "[]"]
      processValue_dispatch [of "AbstractTypeProcessor emptyFieldsTypeMap" "Str ''Bare''"
        "Obj []" "Str ''x''" "()" "[]"]
    by (simp add: own_value_def)
qed

section \<open>An empty fields map\<close>

text \<open>
  Claim C10. For a type definition whose \<^verbatim>\<open>fields\<close> is an object without keys,
  \<^verbatim>\<open>getFieldList\<close> returns the empty list and \<^verbatim>\<open>processItem\<close> returns the empty
  record for every input that is an object, raising nothing. \<^verbatim>\<open>getFieldList\<close>, and
  \<^verbatim>\<open>processItem\<close> on an object, fail with \<^verbatim>\<open>MISSING_FIELDS_FOR_TYPE\<close> exactly when
  the type is defined and its \<^verbatim>\<open>fields\<close> is not an object.
\<close>

theorem empty_fields_map:
  "(getTypeDefinition this T = Some (Inr typeDefinition) \<and>
    instanceof_Object (own_value typeDefinition ''fields'') \<and>
    Object_keys (own_value typeDefinition ''fields'') = [] \<longrightarrow>
      getFieldList this T = Some (Inr []) \<and>
      (instanceof_Object item \<longrightarrow> processItem this item T s = Some (Inr (Obj []), s))) \<and>
   (getFieldList this T = Some (Inl MissingFieldsForType) \<longleftrightarrow>
      (\<exists>td. getTypeDefinition this T = Some (Inr td) \<and>
         \<not> instanceof_Object (own_value td ''fields''))) \<and>
   (instanceof_Object item \<longrightarrow>
      ((\<exists>s'. processItem this item T s = Some (Inl MissingFieldsForType, s')) \<longleftrightarrow>
        (\<exists>td. getTypeDefinition this T = Some (Inr td) \<and>
           \<not> instanceof_Object (own_value td ''fields''))))"
proof (intro conjI impI)
  assume a: "getTypeDefinition this T = Some (Inr typeDefinition) \<and>
    instanceof_Object (own_value typeDefinition ''fields'') \<and>
    Object_keys (own_value typeDefinition ''fields'') = []"
  then have "instanceof_Object typeDefinition"
    by (auto dest: getTypeDefinition_object)
  with a show fl: "getFieldList this T = Some (Inr [])"
    by (simp add: getFieldList_def)
  show "processItem this item T s = Some (Inr (Obj []), s)" if "instanceof_Object item"
    using that fl by (simp add: processItem.simps)
next
  show m: "getFieldList this T = Some (Inl MissingFieldsForType) \<longleftrightarrow>
      (\<exists>td. getTypeDefinition this T = Some (Inr td) \<and>
         \<not> instanceof_Object (own_value td ''fields''))"
  proof (cases "getTypeDefinition this T")
    case None
    then show ?thesis by (simp add: getFieldList_def)
  next
    case (Some r)
    show ?thesis
    proof (cases r)
      case (Inl e)
      with Some getTypeDefinition_error [of this T e] show ?thesis
        by (auto simp: getFieldList_def)
    next
      case (Inr td)
      with Some getTypeDefinition_object [of this T td] show ?thesis
        by (simp add: getFieldList_def)
    qed
  qed
  show "(\<exists>s'. processItem this item T s = Some (Inl MissingFieldsForType, s')) \<longleftrightarrow>
        (\<exists>td. getTypeDefinition this T = Some (Inr td) \<and>
           \<not> instanceof_Object (own_value td ''fields''))"
    if "instanceof_Object item"
    unfolding m [symmetric] using that
    by (auto simp: processItem.simps split: Option.bind_splits sum.splits prod.splits if_splits)
qed

theorem empty_fields_map_witness:
  "getTypeDefinition (AbstractTypeProcessor emptyFieldsTypeMap :: unit processor) (Str ''Empty'')
     = Some (Inr (Obj [(''fields'', Obj [])])) \<and>
   instanceof_Object (own_value (Obj [(''fields'', Obj [])]) ''fields'') \<and>
   Object_keys (own_value (Obj [(''fields'', Obj [])]) ''fields'') = [] \<and>
   instanceof_Object (Obj [(''firstName'', Str ''Ann'')]) \<and>
   getFieldList (AbstractTypeProcessor emptyFieldsTypeMap :: unit processor) (Str ''Empty'')
     = Some (Inr []) \<and>
   processItem (AbstractTypeProcessor emptyFieldsTypeMap) (Obj [(''firstName'', Str ''Ann'')])
     (Str ''Empty'') () = Some (Inr (Obj []), ()) \<and>
   getTypeDefinition (AbstractTypeProcessor emptyFieldsTypeMap :: unit processor) (Str ''Bare'')
     = Some (Inr (Obj [])) \<and>
   \<not> instanceof_Object (own_value (Obj []) ''fields'') \<and>
   getFieldList (AbstractTypeProcessor emptyFieldsTypeMap :: unit processor) (Str ''Bare'')
     = Some (Inl MissingFieldsForType) \<and>
   processItem (AbstractTypeProcessor emptyFieldsTypeMap) (Obj [(''firstName'', Str ''Ann'')])
     (Str ''Bare'') () = Some (Inl MissingFieldsForType, ())"
proof -
  have td: "getTypeDefinition (AbstractTypeProcessor emptyFieldsTypeMap :: unit processor) (Str ''Empty'')
     = Some (Inr (Obj [(''fields'', Obj [])]))"
    by (simp add: getTypeDefinition_def AbstractTypeProcessor_def emptyFieldsTypeMap_def get_prop_def)
  have bare: "getTypeDefinition (AbstractTypeProcessor emptyFieldsTypeMap :: unit processor) (Str ''Bare'')
     = Some (Inr (Obj []))"
    by (simp add: getTypeDefinition_def AbstractTypeProcessor_def emptyFieldsTypeMap_def get_prop_def)
  have run: "processItem (AbstractTypeProcessor emptyFieldsTypeMap) (Obj [(''firstName'', Str ''Ann'')])
     (Str ''Bare'') () = Some (Inl MissingFieldsForType, ())"
    using bare by (simp add: processItem.simps getFieldList_def own_value_def)
  show ?thesis
    using td bare run
      empty_fields_map [of "AbstractTypeProcessor emptyFieldsTypeMap" "Str ''Empty''"
        "Obj [(''fields'', Obj [])]" "Obj [(''firstName'', Str ''Ann'')]" "()"]
      empty_fields_map [of "AbstractTypeProcessor emptyFieldsTypeMap" "Str ''Bare''"
        "Obj []" "Obj [(''firstName'', Str ''Ann'')]" "()"]
    by (simp add: own_value_def)
qed

section \<open>Type names the type map does not define\<close>

text \<open>
  Claim C5 says that for a type name absent from the type map every entry point fails
  with \<^verbatim>\<open>NON_EXISTENT_TYPE\<close>, for every input value. The list and item processors
  test the shape of their input before they look the type up, and the list processor
  catches what its elements throw: for the absent type name \<^verbatim>\<open>'Missing'\<close> the empty
  list and \<^verbatim>\<open>null\<close> come back unchanged, a string is an invalid item, and a list of
  one element fails with a \<^verbatim>\<open>VALUE_LIST_ERROR\<close>.
\<close>

theorem absent_type_name_counterexample:
  "absentFromTypeMap (AbstractTypeProcessor contactTypeMap :: unit processor) (Str ''Missing'') \<and>
   \<not> inheritedByTypeMap (AbstractTypeProcessor contactTypeMap :: unit processor) (Str ''Missing'') \<and>
   processValueList (AbstractTypeProcessor contactTypeMap) (Arr []) (Str ''Missing'') ()
     = Some (Inr (Arr []), ()) \<and>
   processValueList (AbstractTypeProcessor contactTypeMap) Null (Str ''Missing'') ()
     = Some (Inr Null, ()) \<and>
   processValueList (AbstractTypeProcessor contactTypeMap) (Arr [Str ''Ann'']) (Str ''Missing'') ()
     = Some (Inl (ValueListError [(0, NonExistentType)]), ()) \<and>
   processItem (AbstractTypeProcessor contactTypeMap) Null (Str ''Missing'') ()
     = Some (Inr Null, ()) \<and>
   processItem (AbstractTypeProcessor contactTypeMap) (Str ''Ann'') (Str ''Missing'') ()
     = Some (Inl InvalidItem, ())"
  by (simp add: absentFromTypeMap_def inheritedByTypeMap_def AbstractTypeProcessor_def
      contactTypeMap_def getTypeDefinition_def get_prop_def objectPrototypeNames_def
      valueExists_def processValueList.simps processItem.simps processValue.simps)

text \<open>
  Claim C5, amended. Let a type name be absent from the type map and be no name that
  the type map inherits from its prototype chain (\<^verbatim>\<open>typeMap['constructor']\<close> is a
  function, which the code takes for a type definition). Then \<^verbatim>\<open>getTypeDefinition\<close>,
  \<^verbatim>\<open>getFieldList\<close>, \<^verbatim>\<open>getFieldDescriptor\<close>, \<^verbatim>\<open>getTypeFeature\<close>, \<^verbatim>\<open>getFieldFeature\<close> and
  \<^verbatim>\<open>processValue\<close> fail with \<^verbatim>\<open>NON_EXISTENT_TYPE\<close> for every input; \<^verbatim>\<open>processItem\<close>
  does so for every input that is an object; and \<^verbatim>\<open>processValueList\<close> on a list that
  is not empty fails with a \<^verbatim>\<open>VALUE_LIST_ERROR\<close> that carries \<^verbatim>\<open>NON_EXISTENT_TYPE\<close> at
  every index.
\<close>

theorem absent_type_name:
  "absentFromTypeMap this T \<and> \<not> inheritedByTypeMap this T \<longrightarrow>
     getTypeDefinition this T = Some (Inl NonExistentType) \<and>
     getFieldList this T = Some (Inl NonExistentType) \<and>
     getFieldDescriptor this T fieldName = Some (Inl NonExistentType) \<and>
     getTypeFeature this T featureName = Some (Inl NonExistentType) \<and>
     getFieldFeature this T fieldName featureName = Some (Inl NonExistentType) \<and>
     processValue this v T s = Some (Inl NonExistentType, s) \<and>
     (instanceof_Object v \<longrightarrow> processItem this v T s = Some (Inl NonExistentType, s)) \<and>
     (xs \<noteq> [] \<longrightarrow> processValueList this (Arr xs) T s =
        Some (Inl (ValueListError (map (\<lambda>i. (i, NonExistentType)) [0..<length xs])), s))"
proof
  assume "absentFromTypeMap this T \<and> \<not> inheritedByTypeMap this T"
  then have td: "getTypeDefinition this T = Some (Inl NonExistentType)"
    by (simp add: absent_getTypeDefinition)
  have loop: "processValueList_loop this T xs 0 [] [] s
      = Some (([], map (\<lambda>i. (i, NonExistentType)) [0..<length xs]), s)"
    using processValueList_loop_results
      [of "[]" 0 this T xs s "replicate (length xs) (Inl NonExistentType)" s "[]"]
    by (simp add: absent_elementResults [OF td] failures_replicate successes_replicate)
  show "getTypeDefinition this T = Some (Inl NonExistentType) \<and>
     getFieldList this T = Some (Inl NonExistentType) \<and>
     getFieldDescriptor this T fieldName = Some (Inl NonExistentType) \<and>
     getTypeFeature this T featureName = Some (Inl NonExistentType) \<and>
     getFieldFeature this T fieldName featureName = Some (Inl NonExistentType) \<and>
     processValue this v T s = Some (Inl NonExistentType, s) \<and>
     (instanceof_Object v \<longrightarrow> processItem this v T s = Some (Inl NonExistentType, s)) \<and>
     (xs \<noteq> [] \<longrightarrow> processValueList this (Arr xs) T s =
        Some (Inl (ValueListError (map (\<lambda>i. (i, NonExistentType)) [0..<length xs])), s))"
    using td loop
    by (simp add: getFieldList_def getFieldDescriptor_def getTypeFeature_def getFieldFeature_def
        processValue.simps processItem.simps processValueList.simps)
qed

theorem absent_type_name_witness:
  "absentFromTypeMap (AbstractTypeProcessor contactTypeMap :: unit processor) (Str ''Missing'') \<and>
   \<not> inheritedByTypeMap (AbstractTypeProcessor contactTypeMap :: unit processor) (Str ''Missing'') \<and>
   getTypeDefinition (AbstractTypeProcessor contactTypeMap :: unit processor) (Str ''Missing'')
     = Some (Inl NonExistentType) \<and>
   getFieldFeature (AbstractTypeProcessor contactTypeMap :: unit processor) (Str ''Missing'')
     ''firstName'' ''label'' = Some (Inl NonExistentType) \<and>
   processValue (AbstractTypeProcessor contactTypeMap) (Str ''Ann'') (Str ''Missing'') ()
     = Some (Inl NonExistentType, ()) \<and>
   instanceof_Object (Obj [(''firstName'', Str ''Ann'')]) \<and>
   processItem (AbstractTypeProcessor contactTypeMap) (Obj [(''firstName'', Str ''Ann'')])
     (Str ''Missing'') () = Some (Inl NonExistentType, ()) \<and>
   processValueList (AbstractTypeProcessor contactTypeMap) (Arr [Str ''Ann'', Str ''Bob''])
     (Str ''Missing'') ()
     = Some (Inl (ValueListError [(0, NonExistentType), (1, NonExistentType)]), ())"
proof -
  have absent: "absentFromTypeMap (AbstractTypeProcessor contactTypeMap :: unit processor) (Str ''Missing'')"
    by (simp add: absentFromTypeMap_def AbstractTypeProcessor_def contactTypeMap_def)
  have own: "\<not> inheritedByTypeMap (AbstractTypeProcessor contactTypeMap :: unit processor) (Str ''Missing'')"
    by (simp add: inheritedByTypeMap_def AbstractTypeProcessor_def contactTypeMap_def
        objectPrototypeNames_def)
  have upt: "[0..<length [Str ''Ann'', Str ''Bob'']] = [0, 1]"
    by (simp add: upt_rec)
  show ?thesis
    using absent own
      absent_type_name [of "AbstractTypeProcessor contactTypeMap" "Str ''Missing''" "''firstName''"
        "''label''" "Str ''Ann''" "()" "[Str ''Ann'', Str ''Bob'']"]
      absent_type_name [of "AbstractTypeProcessor contactTypeMap" "Str ''Missing''" "''firstName''"
        "''label''" "Obj [(''firstName'', Str ''Ann'')]" "()" "[Str ''Ann'', Str ''Bob'']"]
    unfolding upt by simp
qed

section \<open>Aggregated failures of a list\<close>

text \<open>
  Claim C2. Let a list of N elements be processed, and let F be the set of indices
  whose element fails. If F is not empty, \<^verbatim>\<open>processValueList\<close> raises a
  \<^verbatim>\<open>VALUE_LIST_ERROR\<close> whose \<^verbatim>\<open>indices\<close> map has exactly the keys F, each with the
  error caught at that index. If F is empty it raises nothing and returns the list of
  the processed elements.
\<close>

theorem processValueList_error_indices:
  assumes "elementResults this T xs s = Some (rs, s')"
    and "F = {i. i < length xs \<and> isl (rs ! i)}"
  shows "(F \<noteq> {} \<longrightarrow>
           (\<exists>indices. processValueList this (Arr xs) T s = Some (Inl (ValueListError indices), s') \<and>
              fst ` set indices = F \<and>
              (\<forall>i \<in> F. map_of indices i = Some (projl (rs ! i))))) \<and>
         (F = {} \<longrightarrow> processValueList this (Arr xs) T s = Some (Inr (Arr (map projr rs)), s'))"
proof -
  have len: "length rs = length xs"
    using assms(1) by (rule elementResults_length)
  have loop: "processValueList_loop this T xs 0 [] [] s
      = Some ((map snd (successes [0..<length xs] rs), failures [0..<length xs] rs), s')"
    using processValueList_loop_results [OF _ assms(1), of "[]" 0 "[]"] by simp
  have keys: "fst ` set (failures [0..<length xs] rs) = F"
    using len assms(2) by (simp add: failing_indices)
  have lookup: "\<forall>i \<in> F. map_of (failures [0..<length xs] rs) i = Some (projl (rs ! i))"
    using failures_lookup [of "[0..<length xs]" _ rs] len assms(2) by auto
  have none: "failures [0..<length xs] rs = [] \<longleftrightarrow> F = {}"
    using keys by auto
  have all: "map snd (successes [0..<length xs] rs) = map projr rs" if "F = {}"
  proof -
    from that none len have "\<forall>r \<in> set rs. \<not> isl r"
      by (simp add: failures_Nil_iff)
    then have "filter (\<lambda>r. \<not> isl r) rs = rs" by simp
    with len show ?thesis by (simp add: successes_values)
  qed
  show ?thesis
    using loop keys lookup none all by (auto simp: processValueList.simps)
qed

theorem processValueList_error_indices_witness:
  "elementResults (strictStrings contactTypeMap) (Str ''String'') [Str ''A'', Num 7] ()
     = Some ([Inr (Str ''A''), Inl (Thrown (Num 7))], ()) \<and>
   {i. i < length [Str ''A'', Num 7] \<and> isl ([Inr (Str ''A''), Inl (Thrown (Num 7))] ! i)} = {1} \<and>
   (\<exists>indices. processValueList (strictStrings contactTypeMap) (Arr [Str ''A'', Num 7]) (Str ''String'') ()
       = Some (Inl (ValueListError indices), ()) \<and>
      fst ` set indices = {1} \<and> map_of indices 1 = Some (Thrown (Num 7))) \<and>
   elementResults (strictStrings contactTypeMap) (Str ''String'') [Str ''A'', Str ''B''] ()
     = Some ([Inr (Str ''A''), Inr (Str ''B'')], ()) \<and>
   {i. i < length [Str ''A'', Str ''B''] \<and> isl ([Inr (Str ''A''), Inr (Str ''B'') :: error + jsval] ! i)} = {} \<and>
   processValueList (strictStrings contactTypeMap) (Arr [Str ''A'', Str ''B'']) (Str ''String'') ()
     = Some (Inr (Arr [Str ''A'', Str ''B'']), ())"
proof -
  have bad: "elementResults (strictStrings contactTypeMap) (Str ''String'') [Str ''A'', Num 7] ()
     = Some ([Inr (Str ''A''), Inl (Thrown (Num 7))], ())"
    by (simp add: strictStrings_def contactTypeMap_def getTypeDefinition_def get_prop_def
        objectPrototypeNames_def processValue.simps)
  have F: "{i. i < length [Str ''A'', Num 7] \<and> isl ([Inr (Str ''A''), Inl (Thrown (Num 7))] ! i)} = {1}"
    by (auto simp: nth_Cons' less_Suc_eq split: if_splits)
  have good: "elementResults (strictStrings contactTypeMap) (Str ''String'') [Str ''A'', Str ''B''] ()
     = Some ([Inr (Str ''A''), Inr (Str ''B'')], ())"
    by (simp add: strictStrings_def contactTypeMap_def getTypeDefinition_def get_prop_def
        objectPrototypeNames_def processValue.simps)
  have E: "{i. i < length [Str ''A'', Str ''B''] \<and> isl ([Inr (Str ''A''), Inr (Str ''B'') :: error + jsval] ! i)} = {}"
    by (auto simp: nth_Cons' less_Suc_eq split: if_splits)
  show ?thesis
    using bad F good E
      processValueList_error_indices [OF bad F [symmetric]]
      processValueList_error_indices [OF good E [symmetric]]
    by (simp del: elementResults.simps)
qed

section \<open>The list loop\<close>

text \<open>
  Claim C6 says that a failed element leaves an absence marker in its slot of the
  output list, so that the output keeps the length of the input. The loop pushes
  only what \<^verbatim>\<open>processValue\<close> returns: for the list \<^verbatim>\<open>['A', 7, 'B']\<close> and a primitive
  hook that throws what is not a string, the list built is \<^verbatim>\<open>['A', 'B']\<close>, one
  shorter than the input and without an \<^verbatim>\<open>undefined\<close>, and \<^verbatim>\<open>processValueList\<close> throws
  the error with the index map alone.
\<close>

theorem processValueList_loop_counterexample:
  "processValueList_loop (strictStrings contactTypeMap) (Str ''String'')
     [Str ''A'', Num 7, Str ''B''] 0 [] [] ()
     = Some (([Str ''A'', Str ''B''], [(1, Thrown (Num 7))]), ()) \<and>
   length [Str ''A'', Str ''B''] \<noteq> length [Str ''A'', Num 7, Str ''B''] \<and>
   Undefined \<notin> set [Str ''A'', Str ''B''] \<and>
   processValueList (strictStrings contactTypeMap) (Arr [Str ''A'', Num 7, Str ''B'']) (Str ''String'') ()
     = Some (Inl (ValueListError [(1, Thrown (Num 7))]), ())"
  by (simp add: strictStrings_def contactTypeMap_def getTypeDefinition_def get_prop_def
      objectPrototypeNames_def processValue.simps processValueList.simps)

text \<open>
  Claim C6, amended. For every list input to \<^verbatim>\<open>processValueList\<close>, each failure of an
  element is recorded keyed by its index, and processing continues with all later
  elements: every element is processed once, in index order, whatever fails (for a
  primitive type the hook is called on each element in turn). The list built holds
  the processed values of the elements that succeeded, in input order, and nothing
  for an element that failed, so its length is that of the input less the number of
  failures.
\<close>

theorem processValueList_loop_records_and_continues:
  assumes "elementResults this T xs s = Some (rs, s')"
  shows "\<exists>newList errorIndices.
           processValueList_loop this T xs 0 [] [] s = Some ((newList, errorIndices), s') \<and>
           length rs = length xs \<and>
           fst ` set errorIndices = {i. i < length xs \<and> isl (rs ! i)} \<and>
           (\<forall>i < length xs. isl (rs ! i) \<longrightarrow> map_of errorIndices i = Some (projl (rs ! i))) \<and>
           newList = map projr (filter (\<lambda>r. \<not> isl r) rs) \<and>
           length newList + length errorIndices = length xs \<and>
           (\<forall>typeDefinition log. getTypeDefinition this T = Some (Inr typeDefinition) \<and>
              truthy (own_value typeDefinition ''primitive'') \<longrightarrow>
              (\<exists>out s''. processValueList_loop (recording this) T xs 0 [] [] (s, log)
                 = Some (out, (s'', log @ map (\<lambda>x. PrimitiveCall x T) xs))))"
proof -
  have len: "length rs = length xs"
    using assms by (rule elementResults_length)
  have len': "length [0..<length xs] = length rs"
    using len by simp
  have loop: "processValueList_loop this T xs 0 [] [] s
      = Some ((map snd (successes [0..<length xs] rs), failures [0..<length xs] rs), s')"
    using processValueList_loop_results [OF _ assms, of "[]" 0 "[]"] by simp
  have keys: "fst ` set (failures [0..<length xs] rs) = {i. i < length xs \<and> isl (rs ! i)}"
    using len by (simp add: failing_indices)
  have lookup: "\<forall>i < length xs. isl (rs ! i) \<longrightarrow>
      map_of (failures [0..<length xs] rs) i = Some (projl (rs ! i))"
    using failures_lookup [of "[0..<length xs]" _ rs] len by auto
  have built: "map snd (successes [0..<length xs] rs) = map projr (filter (\<lambda>r. \<not> isl r) rs)"
    using len' by (rule successes_values)
  have count: "length (map snd (successes [0..<length xs] rs)) + length (failures [0..<length xs] rs)
      = length xs"
    using failures_length [OF len'] len by simp
  have calls: "\<forall>typeDefinition log. getTypeDefinition this T = Some (Inr typeDefinition) \<and>
      truthy (own_value typeDefinition ''primitive'') \<longrightarrow>
      (\<exists>out s''. processValueList_loop (recording this) T xs 0 [] [] (s, log)
         = Some (out, (s'', log @ map (\<lambda>x. PrimitiveCall x T) xs)))"
    by (intro allI impI, elim conjE, rule recording_loop_primitive)
  show ?thesis
    using loop len keys lookup built count calls by simp
qed

theorem processValueList_loop_records_and_continues_witness:
  "elementResults (strictStrings contactTypeMap) (Str ''String'') [Str ''A'', Num 7, Str ''B''] ()
     = Some ([Inr (Str ''A''), Inl (Thrown (Num 7)), Inr (Str ''B'')], ()) \<and>
   getTypeDefinition (strictStrings contactTypeMap :: unit processor) (Str ''String'')
     = Some (Inr (Obj [(''primitive'', Bool True)])) \<and>
   truthy (own_value (Obj [(''primitive'', Bool True)]) ''primitive'') \<and>
   (\<exists>newList errorIndices.
      processValueList_loop (strictStrings contactTypeMap) (Str ''String'')
        [Str ''A'', Num 7, Str ''B''] 0 [] [] () = Some ((newList, errorIndices), ()) \<and>
      newList = [Str ''A'', Str ''B''] \<and>
      length newList + length errorIndices = 3 \<and>
      (\<exists>out s''. processValueList_loop (recording (strictStrings contactTypeMap)) (Str ''String'')
        [Str ''A'', Num 7, Str ''B''] 0 [] [] ((), [])
        = Some (out, (s'',
            [PrimitiveCall (Str ''A'') (Str ''String''), PrimitiveCall (Num 7) (Str ''String''),
             PrimitiveCall (Str ''B'') (Str ''String'')]))))"
proof -
  have rs: "elementResults (strictStrings contactTypeMap) (Str ''String'')
      [Str ''A'', Num 7, Str ''B''] ()
      = Some ([Inr (Str ''A''), Inl (Thrown (Num 7)), Inr (Str ''B'')], ())"
    by (simp add: strictStrings_def contactTypeMap_def getTypeDefinition_def get_prop_def
        objectPrototypeNames_def processValue.simps)
  have td: "getTypeDefinition (strictStrings contactTypeMap :: unit processor) (Str ''String'')
     = Some (Inr (Obj [(''primitive'', Bool True)]))"
    by (simp add: strictStrings_def contactTypeMap_def getTypeDefinition_def get_prop_def)
  have flag: "truthy (own_value (Obj [(''primitive'', Bool True)]) ''primitive'')"
    by (simp add: own_value_def)
  from processValueList_loop_records_and_continues [OF rs]
  obtain newList errorIndices where
    loop: "processValueList_loop (strictStrings contactTypeMap) (Str ''String'')
        [Str ''A'', Num 7, Str ''B''] 0 [] [] () = Some ((newList, errorIndices), ())"
    and built: "newList = map projr (filter (\<lambda>r. \<not> isl r)
        [Inr (Str ''A''), Inl (Thrown (Num 7)), Inr (Str ''B'') :: error + jsval])"
    and count: "length newList + length errorIndices
        = length [Str ''A'', Num 7, Str ''B'']"
    and calls: "\<forall>typeDefinition log.
        getTypeDefinition (strictStrings contactTypeMap :: unit processor) (Str ''String'')
          = Some (Inr typeDefinition) \<and>
        truthy (own_value typeDefinition ''primitive'') \<longrightarrow>
        (\<exists>out s''. processValueList_loop (recording (strictStrings contactTypeMap)) (Str ''String'')
          [Str ''A'', Num 7, Str ''B''] 0 [] [] ((), log)
          = Some (out, (s'',
              log @ map (\<lambda>x. PrimitiveCall x (Str ''String'')) [Str ''A'', Num 7, Str ''B''])))"
    by (elim exE conjE)
  from calls [rule_format, of "Obj [(''primitive'', Bool True)]" "[]"] td flag
  have log: "\<exists>out s''. processValueList_loop (recording (strictStrings contactTypeMap)) (Str ''String'')
        [Str ''A'', Num 7, Str ''B''] 0 [] [] ((), [])
        = Some (out, (s'',
            [PrimitiveCall (Str ''A'') (Str ''String''), PrimitiveCall (Num 7) (Str ''String''),
             PrimitiveCall (Str ''B'') (Str ''String'')]))"
    by (simp del: processValueList_loop.simps)
  then obtain out s'' where run:
    "processValueList_loop (recording (strictStrings contactTypeMap)) (Str ''String'')
        [Str ''A'', Num 7, Str ''B''] 0 [] [] ((), [])
        = Some (out, (s'',
            [PrimitiveCall (Str ''A'') (Str ''String''), PrimitiveCall (Num 7) (Str ''String''),
             PrimitiveCall (Str ''B'') (Str ''String'')]))"
    by (elim exE)
  have "newList = [Str ''A'', Str ''B'']"
    using built by simp
  moreover have "length newList + length errorIndices = 3"
    using count by simp
  ultimately have "\<exists>newList errorIndices.
      processValueList_loop (strictStrings contactTypeMap) (Str ''String'')
        [Str ''A'', Num 7, Str ''B''] 0 [] [] () = Some ((newList, errorIndices), ()) \<and>
      newList = [Str ''A'', Str ''B''] \<and>
      length newList + length errorIndices = 3 \<and>
      (\<exists>out s''. processValueList_loop (recording (strictStrings contactTypeMap)) (Str ''String'')
        [Str ''A'', Num 7, Str ''B''] 0 [] [] ((), [])
        = Some (out, (s'',
            [PrimitiveCall (Str ''A'') (Str ''String''), PrimitiveCall (Num 7) (Str ''String''),
             PrimitiveCall (Str ''B'') (Str ''String'')])))"
    using loop run by (intro exI conjI)
  then show ?thesis
    using rs td flag by (intro conjI)
qed

section \<open>Aggregated failures of an item\<close>

text \<open>
  Claim C1: if exactly the fields in F fail, \<^verbatim>\<open>processItem\<close> raises an \<^verbatim>\<open>ITEM_ERROR\<close>
  whose map has the key set F. The code keeps the failures in a plain object,
  \<^verbatim>\<open>errorFields[fieldName] = error\<close>, and the same for the output record. For the type
  \<^verbatim>\<open>Record\<close> of a type map read with \<^verbatim>\<open>JSON.parse\<close>, which declares the fields
  \<^verbatim>\<open>__proto__\<close> and \<^verbatim>\<open>a\<close>, and a primitive hook that throws what is not a string, the
  item \<^verbatim>\<open>{"__proto__": 7, "a": "A"}\<close> fails at the field \<^verbatim>\<open>__proto__\<close> and at no
  other, so F has one element. The assignment under \<^verbatim>\<open>__proto__\<close> runs the setter of
  \<^verbatim>\<open>Object.prototype\<close> and records nothing: \<^verbatim>\<open>processItem\<close> raises no error and
  returns \<^verbatim>\<open>{a: 'A'}\<close>.
\<close>

theorem proto_field_failure_unreported:
  "instanceof_Object (Obj [(''__proto__'', Num 7), (''a'', Str ''A'')]) \<and>
   getFieldList (strictStrings protoTypeMap :: unit processor) (Str ''Record'')
     = Some (Inr [''__proto__'', ''a'']) \<and>
   fieldResults (strictStrings protoTypeMap) (Obj [(''__proto__'', Num 7), (''a'', Str ''A'')])
     (Str ''Record'') [''__proto__'', ''a''] ()
     = Some ([Inl (Thrown (Num 7)), Inr (Str ''A'')], ()) \<and>
   processItem (strictStrings protoTypeMap) (Obj [(''__proto__'', Num 7), (''a'', Str ''A'')])
     (Str ''Record'') ()
     = Some (Inr (Obj [(''a'', Str ''A'')]), ())"
  by (simp add: processItem.simps processFieldValue.simps processValue.simps
      strictStrings_def protoTypeMap_def getFieldList_def getFieldDescriptor_def
      getTypeDefinition_def get_prop_def set_prop_def set_error_def objectPrototypeNames_def)

section \<open>The shape of the output record\<close>

text \<open>
  Claim C8: for a record-shaped, schema-conforming input the output record has
  exactly the declared field names as keys. The code builds the output in a plain
  object, \<^verbatim>\<open>newItem[fieldName] = ...\<close>. For the type \<^verbatim>\<open>Record\<close> above, with the declared
  fields \<^verbatim>\<open>__proto__\<close> and \<^verbatim>\<open>a\<close>, and the hooks of the base class, the conforming item
  \<^verbatim>\<open>{"__proto__": "P", "a": "A"}\<close> comes back as \<^verbatim>\<open>{a: 'A'}\<close>: the assignment under
  \<^verbatim>\<open>__proto__\<close> runs the setter of \<^verbatim>\<open>Object.prototype\<close> and creates no key, so the
  declared field \<^verbatim>\<open>__proto__\<close> is missing from the output. The scenario of the claim,
  \<^verbatim>\<open>processItem({firstName: 'Ann', extra: 1}, 'Contact')\<close>, does return
  \<^verbatim>\<open>{firstName: 'Ann'}\<close>.
\<close>

theorem proto_field_missing_from_output:
  "isPlainObject (Obj [(''__proto__'', Str ''P''), (''a'', Str ''A'')]) \<and>
   conformsTo (AbstractTypeProcessor protoTypeMap :: unit processor)
     (Obj [(''__proto__'', Str ''P''), (''a'', Str ''A'')]) (Str ''Record'') \<and>
   getFieldList (AbstractTypeProcessor protoTypeMap :: unit processor) (Str ''Record'')
     = Some (Inr [''__proto__'', ''a'']) \<and>
   processItem (AbstractTypeProcessor protoTypeMap)
     (Obj [(''__proto__'', Str ''P''), (''a'', Str ''A'')]) (Str ''Record'') ()
     = Some (Inr (Obj [(''a'', Str ''A'')]), ()) \<and>
   Object_keys (Obj [(''a'', Str ''A'')]) = [''a''] \<and>
   ''__proto__'' \<notin> set (Object_keys (Obj [(''a'', Str ''A'')])) \<and>
   processItem (AbstractTypeProcessor contactTypeMap)
     (Obj [(''firstName'', Str ''Ann''), (''extra'', Num 1)]) (Str ''Contact'') ()
     = Some (Inr (Obj [(''firstName'', Str ''Ann'')]), ())"
  by (simp add: conformsTo.simps contactTypeMap_def processItem.simps processFieldValue.simps processValue.simps
      AbstractTypeProcessor_def protoTypeMap_def getFieldList_def getFieldDescriptor_def
      getTypeDefinition_def get_prop_def own_value_def set_prop_def valueExists_def
      objectPrototypeNames_def)

section \<open>The default hooks\<close>




end
